theory Spec2Isabelle
  imports Complex_Main "HOL-Library.Sublist"
begin

section \<open>JavaScript values\<close>

text \<open>
  The application is JavaScript (\<^verbatim>\<open>src/api/gemini.js\<close>: the proxy handler followed by the
  React component). A number is the \<^typ>\<open>real\<close> a finite double denotes, and the
  arithmetic of the code is double arithmetic: the exact result rounded to the nearest
  double (\<open>roundDouble\<close> below). \<^verbatim>\<open>NaN\<close> and the infinities are not modelled; where the code
  parses a number, \<^term>\<open>None\<close> is a value that does not parse. A text field of the JSON the
  model returns is a \<open>js_text\<close>: missing (\<^verbatim>\<open>undefined\<close>), \<^verbatim>\<open>null\<close> or a string. A field of a
  stored document is an \<open>option\<close>, \<^term>\<open>None\<close> when the document has no such field or holds
  \<^verbatim>\<open>null\<close> there. Strings are byte strings; \<^verbatim>\<open>toLowerCase\<close> is modelled on the ASCII letters.
\<close>

datatype js_text = Undefined | Null | Str string

text \<open>
  Rounding to the nearest double, ties to the even significand: \<open>ulp x\<close> is the distance
  between the doubles around \<open>x\<close>, \<open>2 ^ (e - 52)\<close> for \<open>2 ^ e \<le> \<bar>x\<bar> < 2 ^ (e + 1)\<close>, and
  \<open>2 ^ - 1074\<close> below the normal range.
\<close>

definition roundHalfEven :: "real \<Rightarrow> int" where
  "roundHalfEven x =
     (let f = \<lfloor>x\<rfloor> in
      if x - of_int f < 1 / 2 then f
      else if x - of_int f > 1 / 2 then f + 1
      else if even f then f else f + 1)"

fun ulpDown :: "nat \<Rightarrow> real \<Rightarrow> real" where
  "ulpDown 0 x = 1 / 2 ^ 52"
| "ulpDown (Suc n) x = (if x < 2 then 1 / 2 ^ 52 else 2 * ulpDown n (x / 2))"

fun ulpUp :: "nat \<Rightarrow> real \<Rightarrow> real" where
  "ulpUp 0 x = 1 / 2 ^ 52"
| "ulpUp (Suc n) x = (if 1 \<le> x then 1 / 2 ^ 52 else ulpUp n (x * 2) / 2)"

definition ulp :: "real \<Rightarrow> real" where
  "ulp x = (if 1 \<le> \<bar>x\<bar> then ulpDown 1023 \<bar>x\<bar> else ulpUp 1022 \<bar>x\<bar>)"

definition roundDouble :: "real \<Rightarrow> real" where
  "roundDouble x = of_int (roundHalfEven (x / ulp x)) * ulp x"

text \<open>The operators \<^verbatim>\<open>+\<close>, \<^verbatim>\<open>*\<close> and \<^verbatim>\<open>/\<close> of JavaScript on numbers.\<close>

definition dadd :: "real \<Rightarrow> real \<Rightarrow> real" where
  "dadd a b = roundDouble (a + b)"

definition dmul :: "real \<Rightarrow> real \<Rightarrow> real" where
  "dmul a b = roundDouble (a * b)"

definition ddiv :: "real \<Rightarrow> real \<Rightarrow> real" where
  "ddiv a b = roundDouble (a / b)"

definition toLowerChar :: "char \<Rightarrow> char" where
  "toLowerChar c =
     (case map_of (zip ''ABCDEFGHIJKLMNOPQRSTUVWXYZ'' ''abcdefghijklmnopqrstuvwxyz'') c of
        Some l \<Rightarrow> l
      | None \<Rightarrow> c)"

definition toLowerCase :: "string \<Rightarrow> string" where
  "toLowerCase s = map toLowerChar s"

text \<open>
  \<^verbatim>\<open>x?.toLowerCase() || ''\<close>: the key both \<^verbatim>\<open>find\<close> calls compare, for the name of a stored
  item and for the name in an update entry or a cart line.
\<close>

definition nameKey :: "string option \<Rightarrow> string" where
  "nameKey n = (case n of None \<Rightarrow> [] | Some s \<Rightarrow> toLowerCase s)"

definition textKey :: "js_text \<Rightarrow> string" where
  "textKey n = (case n of Str s \<Rightarrow> toLowerCase s | _ \<Rightarrow> [])"

text \<open>What Firestore stores for a text that is not \<^verbatim>\<open>undefined\<close>.\<close>

definition stored :: "js_text \<Rightarrow> string option" where
  "stored t = (case t of Str s \<Rightarrow> Some s | _ \<Rightarrow> None)"

text \<open>Truthiness of an optional string: present and not empty.\<close>

definition truthy :: "string option \<Rightarrow> bool" where
  "truthy v = (case v of None \<Rightarrow> False | Some s \<Rightarrow> s \<noteq> [])"

text \<open>\<^verbatim>\<open>s || d\<close> on an optional string.\<close>

definition strOr :: "string option \<Rightarrow> string \<Rightarrow> string" where
  "strOr v d = (case v of None \<Rightarrow> d | Some s \<Rightarrow> if s = [] then d else s)"

definition textOr :: "js_text \<Rightarrow> string \<Rightarrow> string" where
  "textOr v d = (case v of Str s \<Rightarrow> if s = [] then d else s | _ \<Rightarrow> d)"

text \<open>\<^verbatim>\<open>parseFloat(x) || d\<close> and \<^verbatim>\<open>x || d\<close> on an optional number: \<^verbatim>\<open>NaN\<close> and \<^verbatim>\<open>0\<close> are falsy.\<close>

definition numOr :: "real option \<Rightarrow> real \<Rightarrow> real" where
  "numOr v d = (case v of None \<Rightarrow> d | Some x \<Rightarrow> if x = 0 then d else x)"

text \<open>
  \<^verbatim>\<open>parseFloat(x.toFixed(2))\<close>: \<^verbatim>\<open>toFixed\<close> rounds the magnitude to the nearest multiple of
  1/100, the larger one on a tie, and keeps the sign; \<^verbatim>\<open>parseFloat\<close> gives the double
  nearest to that decimal.
\<close>

definition toFixed2 :: "real \<Rightarrow> real" where
  "toFixed2 x = roundDouble (sgn x * real_of_int \<lfloor>\<bar>x\<bar> * 100 + 1 / 2\<rfloor> / 100)"

section \<open>Data model\<close>

record inventory_item =
  item_id :: string
  name :: "string option"
  quantity :: "real option"
  item_unit :: "string option"
  restockLevel :: "real option"
  dailyUse :: "real option"
  lastUsed :: "string option"
  predictedRunOutDate :: "string option"

record history_entry =
  h_item :: "string option"
  h_quantity :: real
  h_vendor :: "string option"
  h_cost :: real
  h_date :: string
  h_method :: string

record user_config =
  spendCapMonthly :: real
  currentMonthSpend :: real
  vendorAllowlist :: "string list"

text \<open>
  One element of \<^verbatim>\<open>llmResult.suggestedCart\<close> and of \<^verbatim>\<open>llmResult.inventoryForecasts\<close>. The
  response schema requires \<^verbatim>\<open>quantityToBuy\<close>, which is taken to be a number; the names,
  the reason and the vendor are texts that may be missing.
\<close>

record suggestion =
  s_name :: js_text
  quantityToBuy :: real
  s_reason :: js_text
  s_vendor :: js_text

record forecast =
  f_name :: "string option"
  f_predictedRunOutDate :: "string option"

record llm_result =
  llm_suggestedCart :: "suggestion list"
  llm_inventoryForecasts :: "forecast list"

record cart_item =
  c_name :: js_text
  c_quantity :: real
  c_cost :: real
  c_vendor :: string
  c_reason :: js_text

text \<open>One element of the \<^verbatim>\<open>updates\<close> argument of \<^verbatim>\<open>processUpdates\<close>.\<close>

record update_entry =
  u_name :: js_text
  u_quantity :: "real option"
  u_cost :: "real option"
  u_vendor :: js_text
  u_method :: js_text

text \<open>The calls of \<^verbatim>\<open>logAudit\<close>, one constructor per action, with the details it is given.\<close>

datatype audit =
    ForecastUpdate nat
  | ForecastingBlocked js_text
  | CartBuilt nat real
  | InputProcessed js_text "js_text list"
  | PurchaseExecutedAuto real
  | PurchaseExecutedSimulated real "js_text list"
  | ConfigUpdate user_config
  | InventoryDeletion string

text \<open>
  The component's state: \<^verbatim>\<open>db && userId\<close> as \<open>dbReady\<close>, the three collections the
  listeners mirror, the audit collection and the suggested cart.
\<close>

record app_state =
  dbReady :: bool
  inventory :: "inventory_item list"
  purchaseHistory :: "history_entry list"
  userConfig :: user_config
  auditLog :: "audit list"
  suggestedCart :: "cart_item list"

definition initialConfig :: user_config where
  "initialConfig =
     \<lparr>spendCapMonthly = 500, currentMonthSpend = 150,
      vendorAllowlist = [''Amazon'', ''Walmart'']\<rparr>"

definition logAudit :: "audit \<Rightarrow> app_state \<Rightarrow> app_state" where
  "logAudit a st = (if dbReady st then st\<lparr>auditLog := auditLog st @ [a]\<rparr> else st)"

section \<open>Cart building (\<^verbatim>\<open>runForecasting\<close>, step 3)\<close>

text \<open>
  \<^verbatim>\<open>item.vendor && allowlist.includes(item.vendor) ? item.vendor : allowlist[0] || 'Unknown'\<close>
\<close>

definition firstAllowed :: "string list \<Rightarrow> string" where
  "firstAllowed allow = (case allow of [] \<Rightarrow> ''Unknown'' | a # _ \<Rightarrow> if a = [] then ''Unknown'' else a)"

definition pickVendor :: "user_config \<Rightarrow> js_text \<Rightarrow> string" where
  "pickVendor cfg v =
     (case v of
        Str x \<Rightarrow>
          if x \<noteq> [] \<and> x \<in> set (vendorAllowlist cfg) then x
          else firstAllowed (vendorAllowlist cfg)
      | _ \<Rightarrow> firstAllowed (vendorAllowlist cfg))"

text \<open>
  \<^verbatim>\<open>item.quantityToBuy * (Math.random() * 5 + 5)\<close>; the draw of \<^verbatim>\<open>Math.random()\<close> is the
  second argument.
\<close>

definition itemCost :: "suggestion \<Rightarrow> real \<Rightarrow> real" where
  "itemCost item r = dmul (quantityToBuy item) (dadd (dmul r 5) 5)"

definition cartLine :: "user_config \<Rightarrow> suggestion \<times> real \<Rightarrow> cart_item" where
  "cartLine cfg p =
     (case p of (item, r) \<Rightarrow>
        \<lparr>c_name = s_name item, c_quantity = quantityToBuy item,
         c_cost = toFixed2 (itemCost item r),
         c_vendor = pickVendor cfg (s_vendor item), c_reason = s_reason item\<rparr>)"

text \<open>
  The \<^verbatim>\<open>for (const item of llmSuggestions)\<close> loop over the suggestions, each paired with its
  draw; the accumulator is \<^verbatim>\<open>newCart\<close>, \<^verbatim>\<open>totalCost\<close> and the audit entries logged.
\<close>

fun cartLoop ::
  "user_config \<Rightarrow> (suggestion \<times> real) list \<Rightarrow> cart_item list \<times> real \<times> audit list
     \<Rightarrow> cart_item list \<times> real \<times> audit list" where
  "cartLoop cfg [] acc = acc"
| "cartLoop cfg (p # rest) (newCart, totalCost, logged) =
     (if dadd (dadd (currentMonthSpend cfg) totalCost) (itemCost (fst p) (snd p)) \<le> spendCapMonthly cfg
      then cartLoop cfg rest (newCart @ [cartLine cfg p], dadd totalCost (itemCost (fst p) (snd p)), logged)
      else cartLoop cfg rest (newCart, totalCost, logged @ [ForecastingBlocked (s_name (fst p))]))"

text \<open>The suggestions with the draws of \<^verbatim>\<open>Math.random\<close>: draw \<open>i\<close> belongs to suggestion \<open>i\<close>.\<close>

definition withDraws :: "suggestion list \<Rightarrow> (nat \<Rightarrow> real) \<Rightarrow> (suggestion \<times> real) list" where
  "withDraws llmSuggestions rand = zip llmSuggestions (map rand [0..<length llmSuggestions])"

definition buildCart ::
  "user_config \<Rightarrow> suggestion list \<Rightarrow> (nat \<Rightarrow> real) \<Rightarrow> cart_item list \<times> real \<times> audit list" where
  "buildCart cfg llmSuggestions rand = cartLoop cfg (withDraws llmSuggestions rand) ([], 0, [])"

section \<open>The batched writes\<close>

text \<open>
  The writes the component puts into a \<^verbatim>\<open>writeBatch\<close>: \<^verbatim>\<open>batch.set(invRef, item)\<close>,
  \<^verbatim>\<open>batch.set(invRef, {predictedRunOutDate}, {merge: true})\<close>,
  \<^verbatim>\<open>batch.set(doc(histRef), entry)\<close> and \<^verbatim>\<open>batch.update(configDocRef, {currentMonthSpend})\<close>.
  A document of the inventory collection is addressed by its id, and the listener gives
  every item of the \<open>inventory\<close> state the id of its document. Where the listener puts a
  new document in the list is not modelled: it is put last.
\<close>

datatype batch_write =
    SetInventory string inventory_item
  | MergeForecast string "string option"
  | AddHistory history_entry
  | UpdateSpend real

definition hasDoc :: "string \<Rightarrow> inventory_item list \<Rightarrow> bool" where
  "hasDoc iid docs = (iid \<in> set (map item_id docs))"

definition setDocInv :: "string \<Rightarrow> inventory_item \<Rightarrow> inventory_item list \<Rightarrow> inventory_item list" where
  "setDocInv iid item docs =
     (if hasDoc iid docs
      then map (\<lambda>i. if item_id i = iid then item\<lparr>item_id := iid\<rparr> else i) docs
      else docs @ [item\<lparr>item_id := iid\<rparr>])"

definition mergeForecastInv :: "string \<Rightarrow> string option \<Rightarrow> inventory_item list \<Rightarrow> inventory_item list" where
  "mergeForecastInv iid d docs =
     (if hasDoc iid docs
      then map (\<lambda>i. if item_id i = iid then i\<lparr>predictedRunOutDate := d\<rparr> else i) docs
      else docs @ [\<lparr>item_id = iid, name = None, quantity = None, item_unit = None,
                    restockLevel = None, dailyUse = None, lastUsed = None,
                    predictedRunOutDate = d\<rparr>])"

fun applyWrite :: "app_state \<Rightarrow> batch_write \<Rightarrow> app_state" where
  "applyWrite st (SetInventory iid item) = st\<lparr>inventory := setDocInv iid item (inventory st)\<rparr>"
| "applyWrite st (MergeForecast iid d) = st\<lparr>inventory := mergeForecastInv iid d (inventory st)\<rparr>"
| "applyWrite st (AddHistory h) = st\<lparr>purchaseHistory := purchaseHistory st @ [h]\<rparr>"
| "applyWrite st (UpdateSpend x) = st\<lparr>userConfig := (userConfig st)\<lparr>currentMonthSpend := x\<rparr>\<rparr>"

text \<open>
  \<^verbatim>\<open>batch.commit()\<close>: all writes in the order they were added, or none when the commit is
  rejected (\<open>commitOk\<close> false).
\<close>

definition commitBatch :: "bool \<Rightarrow> batch_write list \<Rightarrow> app_state \<Rightarrow> app_state" where
  "commitBatch commitOk writes st = (if commitOk then foldl applyWrite st writes else st)"

section \<open>Forecast merge (\<^verbatim>\<open>runForecasting\<close>, steps 1 and 2)\<close>

definition safeInventory :: "inventory_item list \<Rightarrow> inventory_item list" where
  "safeInventory docs = filter (\<lambda>item. truthy (name item)) docs"

text \<open>
  \<^verbatim>\<open>new Map(safeInventory.map(item => [item.name.toLowerCase(), item]))\<close>: of two items with
  the same key the later one stays.
\<close>

definition inventoryMap :: "inventory_item list \<Rightarrow> string \<Rightarrow> inventory_item option" where
  "inventoryMap safe = map_of (rev (map (\<lambda>item. (nameKey (name item), item)) safe))"

text \<open>\<^verbatim>\<open>inventoryMap.get(forecast.name?.toLowerCase())\<close>\<close>

definition existingItemFor :: "(string \<Rightarrow> inventory_item option) \<Rightarrow> forecast \<Rightarrow> inventory_item option" where
  "existingItemFor m fc = (case f_name fc of None \<Rightarrow> None | Some n \<Rightarrow> m (toLowerCase n))"

definition forecastWrites :: "(string \<Rightarrow> inventory_item option) \<Rightarrow> forecast list \<Rightarrow> batch_write list" where
  "forecastWrites m inventoryForecasts =
     concat (map (\<lambda>fc. case existingItemFor m fc of
                          Some existingItem \<Rightarrow>
                            [MergeForecast (item_id existingItem) (f_predictedRunOutDate fc)]
                        | None \<Rightarrow> []) inventoryForecasts)"

text \<open>
  \<^verbatim>\<open>runForecasting\<close>, given the result of \<^verbatim>\<open>callPredictiveEngine\<close>, the draws of
  \<^verbatim>\<open>Math.random\<close> and whether the commit of the forecast batch succeeds. A failed commit is
  logged to the console and the cart is built all the same.
\<close>

definition runForecasting :: "llm_result \<Rightarrow> (nat \<Rightarrow> real) \<Rightarrow> bool \<Rightarrow> app_state \<Rightarrow> app_state" where
  "runForecasting llmResult rand commitOk st =
     (if \<not> dbReady st then st
      else if inventory st = [] then st
      else
        let safe = safeInventory (inventory st);
            inventoryForecasts = llm_inventoryForecasts llmResult;
            st1 = commitBatch commitOk (forecastWrites (inventoryMap safe) inventoryForecasts) st;
            st2 = (if commitOk then logAudit (ForecastUpdate (length inventoryForecasts)) st1 else st1);
            built = buildCart (userConfig st) (llm_suggestedCart llmResult) rand;
            st3 = foldl (\<lambda>s a. logAudit a s) st2 (snd (snd built))
        in logAudit (CartBuilt (length (fst built)) (fst (snd built)))
             (st3\<lparr>suggestedCart := fst built\<rparr>))"

section \<open>Manual edits and configuration\<close>




section \<open>Apply updates (\<^verbatim>\<open>processUpdates\<close>)\<close>

text \<open>\<^verbatim>\<open>parseFloat(u.quantity) || 1\<close> and \<^verbatim>\<open>parseFloat(u.cost) || 0\<close>\<close>

definition purchasedQuantity :: "update_entry \<Rightarrow> real" where
  "purchasedQuantity u = numOr (u_quantity u) 1"

definition purchasedCost :: "update_entry \<Rightarrow> real" where
  "purchasedCost u = numOr (u_cost u) 0"

text \<open>
  \<^verbatim>\<open>inventory.find(i => (i?.name?.toLowerCase() || '') === (n?.toLowerCase() || ''))\<close>, the
  lookup of \<^verbatim>\<open>processUpdates\<close> and of \<^verbatim>\<open>handleCheckout\<close>.
\<close>

definition findByName :: "inventory_item list \<Rightarrow> js_text \<Rightarrow> inventory_item option" where
  "findByName docs n = find (\<lambda>i. nameKey (name i) = textKey n) docs"

definition historyOfUpdate :: "string \<Rightarrow> update_entry \<Rightarrow> history_entry" where
  "historyOfUpdate now u =
     \<lparr>h_item = stored (u_name u), h_quantity = purchasedQuantity u, h_vendor = stored (u_vendor u),
      h_cost = purchasedCost u, h_date = now, h_method = textOr (u_method u) ''Agent Input''\<rparr>"

definition restockedItem :: "inventory_item \<Rightarrow> real \<Rightarrow> string \<Rightarrow> inventory_item" where
  "restockedItem existingItem q now =
     existingItem\<lparr>quantity := Some (dadd (numOr (quantity existingItem) 0) q),
                  lastUsed := Some now, predictedRunOutDate := None\<rparr>"

definition newItem :: "string \<Rightarrow> update_entry \<Rightarrow> string \<Rightarrow> inventory_item" where
  "newItem newId u now =
     (let q = purchasedQuantity u in
      \<lparr>item_id = newId, name = stored (u_name u), quantity = Some q,
       item_unit = Some (if q > 1 then ''units'' else ''unit''),
       restockLevel = Some (dmul q 2), dailyUse = Some (ddiv q 30),
       lastUsed = Some now, predictedRunOutDate = None\<rparr>)"

text \<open>
  \<^verbatim>\<open>batch.set\<close> refuses a document with a field that is \<^verbatim>\<open>undefined\<close>: it throws. Of what
  the loop writes for an entry, the name (in the history record and in a new item) and the
  vendor can be \<^verbatim>\<open>undefined\<close>.
\<close>

definition updateThrows :: "update_entry \<Rightarrow> bool" where
  "updateThrows u = (u_name u = Undefined \<or> u_vendor u = Undefined)"

text \<open>The body of the loop over \<^verbatim>\<open>updates\<close>; \<open>k\<close> is the position of the entry.\<close>

definition updateWrites :: "inventory_item list \<Rightarrow> string \<Rightarrow> (nat \<Rightarrow> string) \<Rightarrow> nat \<times> update_entry \<Rightarrow> batch_write list" where
  "updateWrites docs now uuid p =
     (case p of (k, u) \<Rightarrow>
        [AddHistory (historyOfUpdate now u),
         (case findByName docs (u_name u) of
            Some existingItem \<Rightarrow>
              SetInventory (item_id existingItem) (restockedItem existingItem (purchasedQuantity u) now)
          | None \<Rightarrow> SetInventory (uuid k) (newItem (uuid k) u now))])"

text \<open>
  \<^verbatim>\<open>processUpdates\<close>: \<open>uuid k\<close> is the value \<^verbatim>\<open>crypto.randomUUID()\<close> gives for entry \<open>k\<close>,
  and \<open>now\<close> the value of \<^verbatim>\<open>new Date().toISOString()\<close>, taken to be the same for the whole
  call. The loop that fills the batch is outside the \<^verbatim>\<open>try\<close>: when \<^verbatim>\<open>batch.set\<close> throws
  for an entry the call ends there, nothing is committed and nothing is logged. The
  second component says whether \<^verbatim>\<open>runForecasting()\<close> is called afterwards.
\<close>

definition processUpdates ::
  "update_entry list \<Rightarrow> string \<Rightarrow> (nat \<Rightarrow> string) \<Rightarrow> bool \<Rightarrow> app_state \<Rightarrow> app_state \<times> bool" where
  "processUpdates updates now uuid commitOk st =
     (case updates of
        [] \<Rightarrow> (st, False)
      | first # _ \<Rightarrow>
          if \<not> dbReady st then (st, False)
          else if list_ex updateThrows updates then (st, False)
          else
            let writes = concat (map (updateWrites (inventory st) now uuid) (enumerate 0 updates))
            in if commitOk
               then (logAudit (InputProcessed (u_method first) (map u_name updates))
                       (commitBatch True writes st), True)
               else (st, False))"

section \<open>Checkout (\<^verbatim>\<open>handleCheckout\<close>)\<close>

definition historyOfLine :: "string \<Rightarrow> cart_item \<Rightarrow> history_entry" where
  "historyOfLine now item =
     \<lparr>h_item = stored (c_name item), h_quantity = c_quantity item, h_vendor = Some (c_vendor item),
      h_cost = c_cost item, h_date = now, h_method = ''Agent Auto''\<rparr>"

definition checkoutWrites :: "inventory_item list \<Rightarrow> string \<Rightarrow> cart_item \<Rightarrow> batch_write list" where
  "checkoutWrites docs now item =
     AddHistory (historyOfLine now item) #
     (case findByName docs (c_name item) of
        Some existingItem \<Rightarrow>
          [SetInventory (item_id existingItem) (restockedItem existingItem (c_quantity item) now)]
      | None \<Rightarrow> [])"

text \<open>\<^verbatim>\<open>suggestedCart.reduce((sum, item) => sum + item.cost, 0)\<close>\<close>

definition cartTotal :: "cart_item list \<Rightarrow> real" where
  "cartTotal cart = foldl (\<lambda>sum item. dadd sum (c_cost item)) 0 cart"

text \<open>
  Of what the loop writes for a cart line only the name can be \<^verbatim>\<open>undefined\<close>; then
  \<^verbatim>\<open>batch.set\<close> throws.
\<close>

definition lineThrows :: "cart_item \<Rightarrow> bool" where
  "lineThrows item = (c_name item = Undefined)"

text \<open>
  \<^verbatim>\<open>handleCheckout\<close>: no test but the one for an empty cart. Without \<^verbatim>\<open>db\<close> the call
  of \<^verbatim>\<open>writeBatch\<close> throws before any write, and the loop that fills the batch is outside
  the \<^verbatim>\<open>try\<close>: when \<^verbatim>\<open>batch.set\<close> throws for a line the call ends there with nothing
  committed and the cart as it was. The second component says whether
  \<^verbatim>\<open>runForecasting()\<close> is called afterwards.
\<close>

definition handleCheckout :: "string \<Rightarrow> bool \<Rightarrow> app_state \<Rightarrow> app_state \<times> bool" where
  "handleCheckout now commitOk st =
     (if suggestedCart st = [] then (st, False)
      else
        let st1 = logAudit (PurchaseExecutedAuto (cartTotal (suggestedCart st))) st;
            totalPurchased = cartTotal (suggestedCart st);
            itemsToPurchase = suggestedCart st;
            writes = concat (map (checkoutWrites (inventory st) now) itemsToPurchase)
                     @ [UpdateSpend (dadd (currentMonthSpend (userConfig st)) totalPurchased)]
        in if \<not> dbReady st then (st1, False)
           else if list_ex lineThrows itemsToPurchase then (st1, False)
           else if commitOk
           then (logAudit (PurchaseExecutedSimulated totalPurchased (map c_name itemsToPurchase))
                   ((commitBatch True writes st1)\<lparr>suggestedCart := []\<rparr>), True)
           else (st1, False))"

section \<open>Calls to the prediction service (\<^verbatim>\<open>fetchWithRetry\<close> and its callers)\<close>

text \<open>
  What one call of \<^verbatim>\<open>fetch\<close> gives: a response with its status and body, or a rejection
  (the network error \<^verbatim>\<open>fetch\<close> throws). Of the body the callers use three things: whether
  \<^verbatim>\<open>response.json()\<close> succeeds, whether the candidate text is there, and what
  \<^verbatim>\<open>JSON.parse\<close> makes of it (\<^term>\<open>None\<close> when it throws).
\<close>

datatype 'a response_body = NotJson | NoText | CandidateText "'a option"

datatype 'a http_response = HttpResponse (status: nat) (body: "'a response_body")

datatype 'a fetch_outcome = Responded "'a http_response" | Rejected string

datatype js_error = HttpError nat | FetchError string

datatype 'a fetch_result = Returned "'a http_response" | Thrown js_error | ReturnedUndefined

text \<open>\<^verbatim>\<open>response.ok\<close>\<close>

definition ok :: "'a http_response \<Rightarrow> bool" where
  "ok response = (200 \<le> status response \<and> status response \<le> 299)"

text \<open>The \<^verbatim>\<open>try\<close> block of one iteration: \<^term>\<open>Inl\<close> is what reaches the \<^verbatim>\<open>catch\<close>.\<close>

definition attempt :: "'a fetch_outcome \<Rightarrow> js_error + 'a http_response" where
  "attempt outcome =
     (case outcome of
        Rejected msg \<Rightarrow> Inl (FetchError msg)
      | Responded response \<Rightarrow>
          if \<not> ok response then
            if status response = 429 \<or> status response \<ge> 500
            then Inl (HttpError (status response))
            else Inr response
          else Inr response)"

text \<open>
  The loop \<^verbatim>\<open>for (let i = 0; i < maxRetries; i++)\<close>, from iteration \<open>i\<close> on: \<open>fetch i\<close> is the
  outcome of the call of \<^verbatim>\<open>fetch\<close> in iteration \<open>i\<close> and \<open>rand i\<close> the draw of
  \<^verbatim>\<open>Math.random()\<close> there. The result comes with the number of calls of \<^verbatim>\<open>fetch\<close> made and
  the delays waited, in milliseconds.
\<close>

function retryLoop ::
  "(nat \<Rightarrow> 'a fetch_outcome) \<Rightarrow> (nat \<Rightarrow> real) \<Rightarrow> nat \<Rightarrow> nat \<Rightarrow> 'a fetch_result \<times> nat \<times> real list" where
  "retryLoop fetch rand maxRetries i =
     (if i < maxRetries then
        (case attempt (fetch i) of
           Inr response \<Rightarrow> (Returned response, 1, [])
         | Inl error \<Rightarrow>
             if i = maxRetries - 1 then (Thrown error, 1, [])
             else
               (case retryLoop fetch rand maxRetries (Suc i) of
                  (result, calls, delays) \<Rightarrow>
                    (result, Suc calls, (2 ^ i * 1000 + rand i * 1000) # delays)))
      else (ReturnedUndefined, 0, []))"
  by pat_completeness auto
termination
  by (relation "measure (\<lambda>(fetch, rand, maxRetries, i). maxRetries - i)") auto

definition fetchWithRetry ::
  "(nat \<Rightarrow> 'a fetch_outcome) \<Rightarrow> (nat \<Rightarrow> real) \<Rightarrow> nat \<Rightarrow> 'a fetch_result \<times> nat \<times> real list" where
  "fetchWithRetry fetch rand maxRetries = retryLoop fetch rand maxRetries 0"

text \<open>
  The \<^verbatim>\<open>try\<close>/\<^verbatim>\<open>catch\<close> both callers wrap around \<^verbatim>\<open>fetchWithRetry\<close> (called with the default
  of five for \<^verbatim>\<open>maxRetries\<close>): the value returned, and whether \<^verbatim>\<open>console.error\<close> was called.
\<close>

definition callModel :: "'a \<Rightarrow> (nat \<Rightarrow> 'a fetch_outcome) \<Rightarrow> (nat \<Rightarrow> real) \<Rightarrow> 'a \<times> bool" where
  "callModel emptyResult fetch rand =
     (case fst (fetchWithRetry fetch rand 5) of
        Returned response \<Rightarrow>
          (case body response of
             NotJson \<Rightarrow> (emptyResult, True)
           | NoText \<Rightarrow> (emptyResult, False)
           | CandidateText None \<Rightarrow> (emptyResult, True)
           | CandidateText (Some parsed) \<Rightarrow> (parsed, False))
      | Thrown error \<Rightarrow> (emptyResult, True)
      | ReturnedUndefined \<Rightarrow> (emptyResult, True))"

definition callVisionAPI :: "(nat \<Rightarrow> update_entry list fetch_outcome) \<Rightarrow> (nat \<Rightarrow> real) \<Rightarrow> update_entry list \<times> bool" where
  "callVisionAPI fetch rand = callModel [] fetch rand"

definition callPredictiveEngine :: "(nat \<Rightarrow> llm_result fetch_outcome) \<Rightarrow> (nat \<Rightarrow> real) \<Rightarrow> llm_result \<times> bool" where
  "callPredictiveEngine fetch rand =
     callModel \<lparr>llm_suggestedCart = [], llm_inventoryForecasts = []\<rparr> fetch rand"

section \<open>The proxy endpoint (\<^verbatim>\<open>handler\<close>)\<close>

record request =
  req_method :: string
  req_model :: string
  req_payload :: string

text \<open>What the provider answers to the forwarded request, if it is reached.\<close>

datatype upstream = UpstreamJson nat string | UpstreamNotJson nat | UpstreamUnreachable

datatype reply_body = Message string | Data string

record reply =
  reply_status :: nat
  reply_body :: reply_body
  outbound :: "string list"

definition apiUrl :: "string \<Rightarrow> string \<Rightarrow> string" where
  "apiUrl model key =
     ''https://generativelanguage.googleapis.com/v1beta/models/'' @ model
       @ '':generateContent?key='' @ key"

text \<open>
  \<open>GEMINI_API_KEY\<close> is \<^verbatim>\<open>process.env.GEMINI_API_KEY\<close>; \<open>outbound\<close> lists the URLs \<^verbatim>\<open>fetch\<close> was
  called with.
\<close>

definition handler :: "string option \<Rightarrow> request \<Rightarrow> upstream \<Rightarrow> reply" where
  "handler GEMINI_API_KEY req provider =
     (if req_method req \<noteq> ''POST''
      then \<lparr>reply_status = 405, reply_body = Message ''Method Not Allowed'', outbound = []\<rparr>
      else if \<not> truthy GEMINI_API_KEY
      then \<lparr>reply_status = 500, reply_body = Message ''Server error: Key missing.'', outbound = []\<rparr>
      else
        let url = apiUrl (req_model req) (strOr GEMINI_API_KEY [])
        in (case provider of
              UpstreamJson code data \<Rightarrow> \<lparr>reply_status = code, reply_body = Data data, outbound = [url]\<rparr>
            | UpstreamNotJson code \<Rightarrow>
                \<lparr>reply_status = 500, reply_body = Message ''Internal Server Error.'', outbound = [url]\<rparr>
            | UpstreamUnreachable \<Rightarrow>
                \<lparr>reply_status = 500, reply_body = Message ''Internal Server Error.'', outbound = [url]\<rparr>))"

section \<open>Example data\<close>

text \<open>The example of the specification: Milk, quantity 1, restock level 2, cap 500, spend 150.\<close>

definition milkItem :: inventory_item where
  "milkItem =
     \<lparr>item_id = ''3'', name = Some ''Milk'', quantity = Some 1, item_unit = Some ''gallon'',
      restockLevel = Some 2, dailyUse = Some (2 / 10), lastUsed = Some ''2025-01-01T00:00:00.000Z'',
      predictedRunOutDate = Some ''2025-01-06''\<rparr>"

definition milkSuggestion :: suggestion where
  "milkSuggestion =
     \<lparr>s_name = Str ''Milk'', quantityToBuy = 2, s_reason = Str ''Low stock'', s_vendor = Undefined\<rparr>"

definition exampleState :: app_state where
  "exampleState =
     \<lparr>dbReady = True, inventory = [milkItem], purchaseHistory = [],
      userConfig = initialConfig, auditLog = [], suggestedCart = []\<rparr>"

definition halfDraw :: "nat \<Rightarrow> real" where
  "halfDraw i = 1 / 2"

definition exampleNow :: string where
  "exampleNow = ''2025-01-02T00:00:00.000Z''"

definition bulkSuggestion :: suggestion where
  "bulkSuggestion =
     \<lparr>s_name = Str ''Milk'', quantityToBuy = 20, s_reason = Str ''Low stock'', s_vendor = Str ''Walmart''\<rparr>"



text \<open>
  A config whose cap and spend are the doubles nearest to 130.2 and 100.2, with a
  suggestion of four units; a config whose allowlist starts with the empty string, with a
  suggestion whose vendor is the empty string; an update entry with quantity 0.
\<close>

definition edgeConfig :: user_config where
  "edgeConfig =
     \<lparr>spendCapMonthly = roundDouble (1302 / 10), currentMonthSpend = roundDouble (1002 / 10),
      vendorAllowlist = [''Amazon'', ''Walmart'']\<rparr>"

definition edgeSuggestion :: suggestion where
  "edgeSuggestion = milkSuggestion\<lparr>quantityToBuy := 4\<rparr>"

definition blankAllowConfig :: user_config where
  "blankAllowConfig = initialConfig\<lparr>vendorAllowlist := [[], ''Amazon'']\<rparr>"

definition blankVendorSuggestion :: suggestion where
  "blankVendorSuggestion = milkSuggestion\<lparr>s_vendor := Str []\<rparr>"

definition zeroTeaUpdate :: update_entry where
  "zeroTeaUpdate =
     \<lparr>u_name = Str ''Tea'', u_quantity = Some 0, u_cost = Some 3,
      u_vendor = Str ''Walmart'', u_method = Str ''Vision OCR''\<rparr>"

text \<open>
  Three behaviours of the network: one rejected call and then an answer, a 400 answer
  whose body has no candidate text, and a service that answers 503 every time.
\<close>

definition flakyFetch :: "nat \<Rightarrow> llm_result fetch_outcome" where
  "flakyFetch i =
     (if i = 0 then Rejected ''Failed to fetch''
      else Responded (HttpResponse 200 (CandidateText (Some \<lparr>llm_suggestedCart = [milkSuggestion], llm_inventoryForecasts = []\<rparr>))))"

definition badRequestFetch :: "nat \<Rightarrow> llm_result fetch_outcome" where
  "badRequestFetch i = Responded (HttpResponse 400 NoText)"

definition overloadedFetch :: "nat \<Rightarrow> llm_result fetch_outcome" where
  "overloadedFetch i = Responded (HttpResponse 503 NoText)"





text \<open>Reading the document with a given id.\<close>

definition docWithId :: "string \<Rightarrow> inventory_item list \<Rightarrow> inventory_item option" where
  "docWithId iid docs = find (\<lambda>i. item_id i = iid) docs"

text \<open>
  Ids for new items, update entries (two of them name Milk, in different case) and the
  states in which the cart holds one line for Milk and two lines for Milk.
\<close>

definition exampleUuid :: "nat \<Rightarrow> string" where
  "exampleUuid k = replicate (Suc k) CHR ''u''"

definition milkUpdate2 :: update_entry where
  "milkUpdate2 =
     \<lparr>u_name = Str ''Milk'', u_quantity = Some 2, u_cost = Some 4,
      u_vendor = Str ''Walmart'', u_method = Str ''Vision OCR''\<rparr>"

definition milkUpdate3 :: update_entry where
  "milkUpdate3 =
     \<lparr>u_name = Str ''milk'', u_quantity = Some 3, u_cost = Some 4,
      u_vendor = Str ''Walmart'', u_method = Str ''Vision OCR''\<rparr>"

definition teaUpdate :: update_entry where
  "teaUpdate =
     \<lparr>u_name = Str ''Tea'', u_quantity = Some 4, u_cost = Some 3,
      u_vendor = Str ''Walmart'', u_method = Str ''Vision OCR''\<rparr>"

definition doubleMilkState :: app_state where
  "doubleMilkState =
     runForecasting
       \<lparr>llm_suggestedCart = [milkSuggestion, milkSuggestion\<lparr>quantityToBuy := 3\<rparr>],
        llm_inventoryForecasts = []\<rparr>
       halfDraw True exampleState"

definition milkCartState :: app_state where
  "milkCartState =
     runForecasting \<lparr>llm_suggestedCart = [milkSuggestion], llm_inventoryForecasts = []\<rparr>
       halfDraw True exampleState"

declare retryLoop.simps [simp del]

section \<open>Evaluating double arithmetic\<close>

lemma ulpDown_numeral:
  "ulpDown (numeral k) x = (if x < 2 then 1 / 2 ^ 52 else 2 * ulpDown (pred_numeral k) (x / 2))"
  by (simp add: numeral_eq_Suc)

lemma ulpUp_numeral:
  "ulpUp (numeral k) x = (if 1 \<le> x then 1 / 2 ^ 52 else ulpUp (pred_numeral k) (x * 2) / 2)"
  by (simp add: numeral_eq_Suc)

lemmas double_eval =
  dadd_def dmul_def ddiv_def roundDouble_def ulp_def ulpDown_numeral ulpUp_numeral
  roundHalfEven_def Let_def

section \<open>The cart loop\<close>

lemma cartLoop_append:
  "cartLoop cfg (xs @ ys) acc = cartLoop cfg ys (cartLoop cfg xs acc)"
proof (induction xs arbitrary: acc)
  case Nil
  show ?case by simp
next
  case (Cons p xs)
  obtain c t l where acc: "acc = (c, t, l)" by (cases acc)
  show ?case unfolding acc by (simp add: Cons.IH)
qed

lemma withDraws_snoc:
  assumes "i < length xs"
  shows "withDraws (take (Suc i) xs) rand = withDraws (take i xs) rand @ [(xs ! i, rand i)]"
proof -
  from assms have "take (Suc i) xs = take i xs @ [xs ! i]"
    by (simp add: take_Suc_conv_app_nth)
  moreover from assms have "length (take i xs) = i" by simp
  ultimately show ?thesis
    by (simp add: withDraws_def min_absorb2)
qed

text \<open>One turn of the loop, from the state the first \<open>i\<close> suggestions left.\<close>

lemma buildCart_step:
  assumes "i < length llmSuggestions"
    and "buildCart cfg (take i llmSuggestions) rand = (cart0, total0, log0)"
  shows "buildCart cfg (take (Suc i) llmSuggestions) rand =
     (if dadd (dadd (currentMonthSpend cfg) total0) (itemCost (llmSuggestions ! i) (rand i))
           \<le> spendCapMonthly cfg
      then (cart0 @ [cartLine cfg (llmSuggestions ! i, rand i)],
            dadd total0 (itemCost (llmSuggestions ! i) (rand i)), log0)
      else (cart0, total0, log0 @ [ForecastingBlocked (s_name (llmSuggestions ! i))]))"
  using assms by (simp add: buildCart_def withDraws_snoc cartLoop_append)

text \<open>
  The cart the loop returns is the cart it started from followed by the lines of a
  subsequence of the items, in their order, and \<^verbatim>\<open>totalCost\<close> is the running total with the
  costs of exactly these items added one after the other.
\<close>

lemma cartLoop_admitted:
  "cartLoop cfg items (cart, tc, lg) = (cart', tc', lg') \<Longrightarrow>
     \<exists>adm. subseq adm items \<and> cart' = cart @ map (cartLine cfg) adm
       \<and> tc' = foldl (\<lambda>t p. dadd t (itemCost (fst p) (snd p))) tc adm"
proof (induction items arbitrary: cart tc lg)
  case Nil
  then show ?case by auto
next
  case (Cons p items)
  show ?case
  proof (cases "dadd (dadd (currentMonthSpend cfg) tc) (itemCost (fst p) (snd p)) \<le> spendCapMonthly cfg")
    case True
    with Cons.prems have
      "cartLoop cfg items (cart @ [cartLine cfg p], dadd tc (itemCost (fst p) (snd p)), lg) = (cart', tc', lg')"
      by simp
    from Cons.IH [OF this] obtain adm where
      "subseq adm items" "cart' = (cart @ [cartLine cfg p]) @ map (cartLine cfg) adm"
      "tc' = foldl (\<lambda>t p. dadd t (itemCost (fst p) (snd p))) (dadd tc (itemCost (fst p) (snd p))) adm"
      by blast
    then have "subseq (p # adm) (p # items) \<and> cart' = cart @ map (cartLine cfg) (p # adm)
       \<and> tc' = foldl (\<lambda>t p. dadd t (itemCost (fst p) (snd p))) tc (p # adm)"
      by simp
    then show ?thesis by blast
  next
    case False
    with Cons.prems have
      "cartLoop cfg items (cart, tc, lg @ [ForecastingBlocked (s_name (fst p))]) = (cart', tc', lg')"
      by simp
    from Cons.IH [OF this] obtain adm where
      "subseq adm items" "cart' = cart @ map (cartLine cfg) adm"
      "tc' = foldl (\<lambda>t p. dadd t (itemCost (fst p) (snd p))) tc adm"
      by blast
    then have "subseq adm (p # items) \<and> cart' = cart @ map (cartLine cfg) adm
       \<and> tc' = foldl (\<lambda>t p. dadd t (itemCost (fst p) (snd p))) tc adm"
      by (simp add: list_emb_Cons)
    then show ?thesis by blast
  qed
qed

lemma buildCart_admitted:
  "buildCart cfg llmSuggestions rand = (cart, tc, lg) \<Longrightarrow>
     \<exists>adm. subseq adm (withDraws llmSuggestions rand) \<and> cart = map (cartLine cfg) adm
       \<and> tc = foldl (\<lambda>t p. dadd t (itemCost (fst p) (snd p))) 0 adm"
  using cartLoop_admitted [of cfg "withDraws llmSuggestions rand" "[]" 0 "[]" cart tc lg]
  by (simp add: buildCart_def)

text \<open>The runs the examples use.\<close>

lemma milk_cost: "itemCost milkSuggestion (1 / 2) = 15"
  by (simp add: itemCost_def milkSuggestion_def double_eval)

lemma milk_fields:
  "s_name milkSuggestion = Str ''Milk''" "quantityToBuy milkSuggestion = 2"
  "s_reason milkSuggestion = Str ''Low stock''" "s_vendor milkSuggestion = Undefined"
  by (simp_all add: milkSuggestion_def)

lemma toFixed2_15: "toFixed2 15 = 15"
  by (simp add: toFixed2_def double_eval)

lemma milk_line:
  "cartLine initialConfig (milkSuggestion, 1 / 2)
     = \<lparr>c_name = Str ''Milk'', c_quantity = 2, c_cost = 15, c_vendor = ''Amazon'',
        c_reason = Str ''Low stock''\<rparr>"
  by (simp add: cartLine_def milk_cost milk_fields toFixed2_15 pickVendor_def firstAllowed_def
      initialConfig_def)

lemma milk_test: "dadd (dadd 150 0) 15 \<le> 500" "dadd 0 15 = 15"
  by (simp_all add: double_eval)

lemma milk_cart:
  "buildCart initialConfig [milkSuggestion] halfDraw
     = ([cartLine initialConfig (milkSuggestion, 1 / 2)], 15, [])"
proof -
  have "currentMonthSpend initialConfig = 150" "spendCapMonthly initialConfig = 500"
    by (simp_all add: initialConfig_def)
  then show ?thesis
    by (simp add: buildCart_def withDraws_def halfDraw_def milk_cost milk_test)
qed

text \<open>
  Claim C1, as amended. The state of the loop before it looks at suggestion \<open>i\<close> is the
  result of building the cart from the first \<open>i\<close> suggestions, the state after it that of
  the first \<open>i + 1\<close>. If suggestion \<open>i\<close> is admitted (the cart has changed), then the sum the
  code computes in double arithmetic, \<^verbatim>\<open>currentMonthSpend\<close> plus the running total, and
  then plus the cost of the item, each addition rounded to the nearest double, is at most
  \<^verbatim>\<open>spendCapMonthly\<close>; the item's line is appended, with the cost rounded to two decimals
  as its cost, and the cost is added to the running total. The running total is the
  costs of the items admitted so far, whose lines are the cart, added one after the
  other in double arithmetic.
\<close>

theorem C1_cart_admission_tests_rounded_sum:
  assumes "i < length llmSuggestions"
    and "buildCart cfg (take i llmSuggestions) rand = (cart0, total0, log0)"
    and "buildCart cfg (take (Suc i) llmSuggestions) rand = (cart1, total1, log1)"
    and "cart1 \<noteq> cart0"
  shows "dadd (dadd (currentMonthSpend cfg) total0) (itemCost (llmSuggestions ! i) (rand i))
           \<le> spendCapMonthly cfg
    \<and> cart1 = cart0 @ [cartLine cfg (llmSuggestions ! i, rand i)]
    \<and> c_cost (cartLine cfg (llmSuggestions ! i, rand i))
          = toFixed2 (itemCost (llmSuggestions ! i) (rand i))
    \<and> total1 = dadd total0 (itemCost (llmSuggestions ! i) (rand i))
    \<and> (\<exists>adm. subseq adm (withDraws (take i llmSuggestions) rand)
          \<and> cart0 = map (cartLine cfg) adm
          \<and> total0 = foldl (\<lambda>t p. dadd t (itemCost (fst p) (snd p))) 0 adm)"
proof -
  note step = buildCart_step [OF assms(1,2)]
  have adm: "dadd (dadd (currentMonthSpend cfg) total0) (itemCost (llmSuggestions ! i) (rand i))
           \<le> spendCapMonthly cfg"
  proof (rule ccontr)
    assume "\<not> ?thesis"
    with step assms(3) have "cart1 = cart0" by simp
    with assms(4) show False by simp
  qed
  with step assms(3) have res: "cart1 = cart0 @ [cartLine cfg (llmSuggestions ! i, rand i)]"
    "total1 = dadd total0 (itemCost (llmSuggestions ! i) (rand i))"
    by simp_all
  have cost: "c_cost (cartLine cfg (llmSuggestions ! i, rand i))
          = toFixed2 (itemCost (llmSuggestions ! i) (rand i))"
    by (simp add: cartLine_def)
  from buildCart_admitted [OF assms(2)] have
    "\<exists>adm. subseq adm (withDraws (take i llmSuggestions) rand)
          \<and> cart0 = map (cartLine cfg) adm
          \<and> total0 = foldl (\<lambda>t p. dadd t (itemCost (fst p) (snd p))) 0 adm" .
  with adm res cost show ?thesis by simp
qed

theorem C1_cart_admission_tests_rounded_sum_witness:
  "0 < length [milkSuggestion]
   \<and> buildCart initialConfig (take 0 [milkSuggestion]) halfDraw = ([], 0, [])
   \<and> buildCart initialConfig (take (Suc 0) [milkSuggestion]) halfDraw
       = ([cartLine initialConfig (milkSuggestion, 1 / 2)], 15, [])
   \<and> [cartLine initialConfig (milkSuggestion, 1 / 2)] \<noteq> []
   \<and> dadd (dadd (currentMonthSpend initialConfig) 0) (itemCost milkSuggestion (1 / 2))
        \<le> spendCapMonthly initialConfig
   \<and> c_cost (cartLine initialConfig (milkSuggestion, 1 / 2)) = 15"
proof -
  have a: "0 < length [milkSuggestion]" by simp
  have b: "buildCart initialConfig (take 0 [milkSuggestion]) halfDraw = ([], 0, [])"
    by (simp add: buildCart_def withDraws_def)
  have c: "buildCart initialConfig (take (Suc 0) [milkSuggestion]) halfDraw
       = ([cartLine initialConfig (milkSuggestion, 1 / 2)], 15, [])"
    by (simp add: milk_cart)
  have d: "[cartLine initialConfig (milkSuggestion, 1 / 2)] \<noteq> []" by simp
  have h: "halfDraw 0 = 1 / 2" by (simp add: halfDraw_def)
  note run = C1_cart_admission_tests_rounded_sum [OF a b c d]
  from run have e: "dadd (dadd (currentMonthSpend initialConfig) 0) (itemCost milkSuggestion (1 / 2))
        \<le> spendCapMonthly initialConfig"
    by (simp add: h)
  have f: "c_cost (cartLine initialConfig (milkSuggestion, 1 / 2)) = 15"
    by (simp add: milk_line)
  show ?thesis by (intro conjI a b c d e f)
qed

text \<open>
  The claim as stated fails for the sum itself. With a spend of 100.2 and a cap of 130.2
  (the doubles nearest to them) an item that costs 30 is admitted, because 100.2 + 30
  rounds to the cap in double arithmetic, while the sum of the spend, the running total
  of 0 and the cost is greater than the cap.
\<close>

theorem C1_admitted_with_sum_over_cap:
  "buildCart edgeConfig (take 0 [edgeSuggestion]) halfDraw = ([], 0, [])
   \<and> itemCost edgeSuggestion (halfDraw 0) = 30
   \<and> fst (buildCart edgeConfig [edgeSuggestion] halfDraw)
        = [cartLine edgeConfig (edgeSuggestion, 1 / 2)]
   \<and> \<not> (currentMonthSpend edgeConfig + 0 + itemCost edgeSuggestion (halfDraw 0)
          \<le> spendCapMonthly edgeConfig)"
proof -
  have cost: "itemCost edgeSuggestion (1 / 2) = 30"
    by (simp add: itemCost_def edgeSuggestion_def milkSuggestion_def double_eval)
  have cap: "spendCapMonthly edgeConfig = 2290502622982963 / 17592186044416"
    by (simp add: edgeConfig_def double_eval)
  have spend: "currentMonthSpend edgeConfig = 7050948166601933 / 70368744177664"
    by (simp add: edgeConfig_def double_eval)
  have t1: "dadd (7050948166601933 / 70368744177664) 0 = 7050948166601933 / 70368744177664"
    by (simp add: double_eval)
  have t2: "dadd (7050948166601933 / 70368744177664) 30 = 2290502622982963 / 17592186044416"
    by (simp add: double_eval)
  have run: "buildCart edgeConfig [edgeSuggestion] halfDraw
       = ([cartLine edgeConfig (edgeSuggestion, 1 / 2)], dadd 0 30, [])"
    by (simp add: buildCart_def withDraws_def halfDraw_def cost cap spend t1 t2)
  have over: "\<not> (7050948166601933 / 70368744177664 + 0 + 30
                  \<le> (2290502622982963 / 17592186044416 :: real))"
    by simp
  have start: "buildCart edgeConfig (take 0 [edgeSuggestion]) halfDraw = ([], 0, [])"
    by (simp add: buildCart_def withDraws_def)
  from start cost run over show ?thesis
    by (simp add: halfDraw_def cap spend)
qed

section \<open>Vendors and order of the cart\<close>

text \<open>
  Claim C7, as amended. The loop takes the suggestions one at a time in the order the
  model returned them: from the state the first \<open>i\<close> suggestions left, suggestion \<open>i\<close>
  either passes the spend test and its line is appended to the end of the cart, or it
  fails the test and the cart stays as it is. The line has the suggestion's name,
  quantity and reason, and as vendor the suggestion's vendor when that is a non-empty
  string that is a member of the allowlist, otherwise the first vendor of the allowlist,
  or \<^verbatim>\<open>Unknown\<close> when the allowlist is empty or its first entry is the empty string. So
  the whole cart is the lines of a subsequence of the suggestions, in their order.
\<close>

theorem C7_vendor_rule_and_order:
  assumes "i < length llmSuggestions"
    and "buildCart cfg (take i llmSuggestions) rand = (cart0, total0, log0)"
  shows "fst (buildCart cfg (take (Suc i) llmSuggestions) rand) =
      (if dadd (dadd (currentMonthSpend cfg) total0) (itemCost (llmSuggestions ! i) (rand i))
            \<le> spendCapMonthly cfg
       then cart0 @
         [\<lparr>c_name = s_name (llmSuggestions ! i),
           c_quantity = quantityToBuy (llmSuggestions ! i),
           c_cost = toFixed2 (itemCost (llmSuggestions ! i) (rand i)),
           c_vendor =
             (case s_vendor (llmSuggestions ! i) of
                Str x \<Rightarrow>
                  if x \<noteq> [] \<and> x \<in> set (vendorAllowlist cfg) then x
                  else (case vendorAllowlist cfg of
                          [] \<Rightarrow> ''Unknown'' | a # _ \<Rightarrow> if a = [] then ''Unknown'' else a)
              | _ \<Rightarrow> (case vendorAllowlist cfg of
                        [] \<Rightarrow> ''Unknown'' | a # _ \<Rightarrow> if a = [] then ''Unknown'' else a)),
           c_reason = s_reason (llmSuggestions ! i)\<rparr>]
       else cart0)
    \<and> buildCart cfg (take (length llmSuggestions) llmSuggestions) rand
          = buildCart cfg llmSuggestions rand
    \<and> (\<exists>adm. subseq adm (withDraws llmSuggestions rand)
          \<and> fst (buildCart cfg llmSuggestions rand) = map (cartLine cfg) adm)"
proof -
  have line: "cartLine cfg (llmSuggestions ! i, rand i) =
          \<lparr>c_name = s_name (llmSuggestions ! i),
           c_quantity = quantityToBuy (llmSuggestions ! i),
           c_cost = toFixed2 (itemCost (llmSuggestions ! i) (rand i)),
           c_vendor =
             (case s_vendor (llmSuggestions ! i) of
                Str x \<Rightarrow>
                  if x \<noteq> [] \<and> x \<in> set (vendorAllowlist cfg) then x
                  else (case vendorAllowlist cfg of
                          [] \<Rightarrow> ''Unknown'' | a # _ \<Rightarrow> if a = [] then ''Unknown'' else a)
              | _ \<Rightarrow> (case vendorAllowlist cfg of
                        [] \<Rightarrow> ''Unknown'' | a # _ \<Rightarrow> if a = [] then ''Unknown'' else a)),
           c_reason = s_reason (llmSuggestions ! i)\<rparr>"
    by (cases "s_vendor (llmSuggestions ! i)")
      (simp_all add: cartLine_def pickVendor_def firstAllowed_def)
  have step: "fst (buildCart cfg (take (Suc i) llmSuggestions) rand) =
      (if dadd (dadd (currentMonthSpend cfg) total0) (itemCost (llmSuggestions ! i) (rand i))
            \<le> spendCapMonthly cfg
       then cart0 @ [cartLine cfg (llmSuggestions ! i, rand i)]
       else cart0)"
    by (simp add: buildCart_step [OF assms])
  obtain cart tc lg where b: "buildCart cfg llmSuggestions rand = (cart, tc, lg)"
    by (cases "buildCart cfg llmSuggestions rand")
  from buildCart_admitted [OF b] b have whole:
    "\<exists>adm. subseq adm (withDraws llmSuggestions rand)
          \<and> fst (buildCart cfg llmSuggestions rand) = map (cartLine cfg) adm"
    by auto
  from step whole show ?thesis by (simp only: line take_all order_refl simp_thms)
qed

lemma bulk_fields:
  "s_name bulkSuggestion = Str ''Milk''" "quantityToBuy bulkSuggestion = 20"
  "s_reason bulkSuggestion = Str ''Low stock''" "s_vendor bulkSuggestion = Str ''Walmart''"
  by (simp_all add: bulkSuggestion_def)

lemma bulk_cost: "itemCost bulkSuggestion (1 / 2) = 150"
  by (simp add: itemCost_def bulkSuggestion_def double_eval)

lemma bulk_test: "dadd 150 0 = 150" "dadd 150 150 = 300" "dadd 0 150 = 150" "toFixed2 150 = 150"
  by (simp_all add: toFixed2_def double_eval)

theorem C7_vendor_rule_and_order_witness:
  "0 < length [bulkSuggestion]
   \<and> buildCart initialConfig (take 0 [bulkSuggestion]) halfDraw = ([], 0, [])
   \<and> fst (buildCart initialConfig (take (Suc 0) [bulkSuggestion]) halfDraw)
       = [\<lparr>c_name = Str ''Milk'', c_quantity = 20, c_cost = 150, c_vendor = ''Walmart'',
           c_reason = Str ''Low stock''\<rparr>]"
proof -
  have a: "0 < length [bulkSuggestion]" by simp
  have b: "buildCart initialConfig (take 0 [bulkSuggestion]) halfDraw = ([], 0, [])"
    by (simp add: buildCart_def withDraws_def)
  have cfg: "currentMonthSpend initialConfig = 150" "spendCapMonthly initialConfig = 500"
    "vendorAllowlist initialConfig = [''Amazon'', ''Walmart'']"
    by (simp_all add: initialConfig_def)
  have h: "halfDraw 0 = 1 / 2" by (simp add: halfDraw_def)
  from C7_vendor_rule_and_order [OF a b]
  have c: "fst (buildCart initialConfig (take (Suc 0) [bulkSuggestion]) halfDraw)
       = [\<lparr>c_name = Str ''Milk'', c_quantity = 20, c_cost = 150, c_vendor = ''Walmart'',
           c_reason = Str ''Low stock''\<rparr>]"
    by (simp add: h cfg bulk_cost bulk_test bulk_fields)
  show ?thesis by (intro conjI a b c)
qed

text \<open>
  The claim as stated fails when the empty string is in the allowlist. Here the allowlist
  is the empty string and Amazon, and the suggestion's vendor is the empty string, a
  member of the allowlist and also its first vendor: the line's vendor is \<^verbatim>\<open>Unknown\<close>.
\<close>

theorem C7_empty_vendor_is_not_kept:
  "s_vendor blankVendorSuggestion = Str []
   \<and> vendorAllowlist blankAllowConfig = [[], ''Amazon'']
   \<and> map c_vendor (fst (buildCart blankAllowConfig [blankVendorSuggestion] halfDraw))
        = [''Unknown'']"
proof -
  have cost: "itemCost blankVendorSuggestion (1 / 2) = 15"
    by (simp add: itemCost_def blankVendorSuggestion_def milkSuggestion_def double_eval)
  have cfg: "currentMonthSpend blankAllowConfig = 150" "spendCapMonthly blankAllowConfig = 500"
    "vendorAllowlist blankAllowConfig = [[], ''Amazon'']"
    by (simp_all add: blankAllowConfig_def initialConfig_def)
  have v: "s_vendor blankVendorSuggestion = Str []"
    by (simp add: blankVendorSuggestion_def)
  have "fst (buildCart blankAllowConfig [blankVendorSuggestion] halfDraw)
      = [cartLine blankAllowConfig (blankVendorSuggestion, 1 / 2)]"
    by (simp add: buildCart_def withDraws_def halfDraw_def cost cfg milk_test)
  moreover have "c_vendor (cartLine blankAllowConfig (blankVendorSuggestion, 1 / 2)) = ''Unknown''"
    by (simp add: cartLine_def pickVendor_def firstAllowed_def v cfg)
  ultimately show ?thesis using v cfg(3) by simp
qed

section \<open>The cap at checkout\<close>



















section \<open>The proxy endpoint\<close>

text \<open>
  Claim C9. A POST request that arrives when no provider credential is configured (the
  environment variable is missing or empty) is answered with status 500 and the message
  \<^verbatim>\<open>Server error: Key missing.\<close>, and \<^verbatim>\<open>fetch\<close> is not called, whatever the provider would
  have answered.
\<close>

theorem C9_proxy_without_key:
  assumes "req_method req = ''POST''" and "\<not> truthy GEMINI_API_KEY"
  shows "reply_status (handler GEMINI_API_KEY req provider) = 500
    \<and> reply_body (handler GEMINI_API_KEY req provider) = Message ''Server error: Key missing.''
    \<and> outbound (handler GEMINI_API_KEY req provider) = []"
  using assms by (simp add: handler_def)

theorem C9_proxy_without_key_witness:
  "req_method \<lparr>req_method = ''POST'', req_model = ''gemini-2.5-flash-preview-09-2025'', req_payload = ''{}''\<rparr> = ''POST''
   \<and> \<not> truthy None
   \<and> reply_status (handler None \<lparr>req_method = ''POST'', req_model = ''gemini-2.5-flash-preview-09-2025'', req_payload = ''{}''\<rparr> (UpstreamJson 200 ''{}'')) = 500
   \<and> outbound (handler None \<lparr>req_method = ''POST'', req_model = ''gemini-2.5-flash-preview-09-2025'', req_payload = ''{}''\<rparr> (UpstreamJson 200 ''{}'')) = []"
proof -
  let ?req = "\<lparr>req_method = ''POST'', req_model = ''gemini-2.5-flash-preview-09-2025'', req_payload = ''{}''\<rparr>"
  have a: "req_method ?req = ''POST''" by simp
  have b: "\<not> truthy None" by (simp add: truthy_def)
  from C9_proxy_without_key [OF a b, of "UpstreamJson 200 ''{}''"] a b show ?thesis by simp
qed

section \<open>Manual edits\<close>





section \<open>Retrying calls\<close>

lemma attempt_retryable:
  "isl (attempt outcome) \<longleftrightarrow>
     (\<exists>msg. outcome = Rejected msg)
     \<or> (\<exists>response. outcome = Responded response \<and> (status response = 429 \<or> 500 \<le> status response))"
  by (cases outcome) (auto simp: attempt_def ok_def)

lemma retryLoop_shape:
  assumes "i < m" and "retryLoop fetch rand m i = (result, calls, delays)"
  shows "1 \<le> calls \<and> i + calls \<le> m
    \<and> (\<forall>j. i \<le> j \<and> j < i + calls - 1 \<longrightarrow> isl (attempt (fetch j)))
    \<and> delays = map (\<lambda>j. 2 ^ j * 1000 + rand j * 1000) [i..<i + calls - 1]
    \<and> (case attempt (fetch (i + calls - 1)) of
          Inr response \<Rightarrow> result = Returned response
        | Inl error \<Rightarrow> i + calls = m \<and> result = Thrown error)"
  using assms
proof (induction "m - i" arbitrary: i result calls delays)
  case 0
  then show ?case by simp
next
  case (Suc d)
  have unf: "retryLoop fetch rand m i =
     (case attempt (fetch i) of
        Inr response \<Rightarrow> (Returned response, 1, [])
      | Inl error \<Rightarrow>
          if i = m - 1 then (Thrown error, 1, [])
          else
            (case retryLoop fetch rand m (Suc i) of
               (result, calls, delays) \<Rightarrow>
                 (result, Suc calls, (2 ^ i * 1000 + rand i * 1000) # delays)))"
    using Suc.prems(1) by (subst retryLoop.simps) simp
  show ?case
  proof (cases "attempt (fetch i)")
    case (Inr response)
    with Suc.prems(2) unf have "(result, calls, delays) = (Returned response, 1, [])"
      by simp
    with Inr show ?thesis using Suc.prems(1) by auto
  next
    case (Inl error)
    show ?thesis
    proof (cases "i = m - 1")
      case True
      with Inl Suc.prems(2) unf have "(result, calls, delays) = (Thrown error, 1, [])"
        by simp
      with Inl True show ?thesis using Suc.prems(1) by auto
    next
      case False
      obtain r c ds where rec: "retryLoop fetch rand m (Suc i) = (r, c, ds)"
        by (cases "retryLoop fetch rand m (Suc i)")
      with Inl False Suc.prems(2) unf have
        "(result, calls, delays) = (r, Suc c, (2 ^ i * 1000 + rand i * 1000) # ds)"
        by simp
      then have res: "result = r" "calls = Suc c"
        "delays = (2 ^ i * 1000 + rand i * 1000) # ds"
        by simp_all
      from False Suc.prems(1) have lt: "Suc i < m" by simp
      from Suc.hyps(2) have "d = m - Suc i" by simp
      from Suc.hyps(1) [OF this lt rec] have ih:
        "1 \<le> c" "Suc i + c \<le> m"
        "\<forall>j. Suc i \<le> j \<and> j < Suc i + c - 1 \<longrightarrow> isl (attempt (fetch j))"
        "ds = map (\<lambda>j. 2 ^ j * 1000 + rand j * 1000) [Suc i..<Suc i + c - 1]"
        "(case attempt (fetch (Suc i + c - 1)) of
            Inr response \<Rightarrow> r = Returned response
          | Inl error \<Rightarrow> Suc i + c = m \<and> r = Thrown error)"
        by simp_all
      have first: "isl (attempt (fetch i))" using Inl by simp
      have all: "\<forall>j. i \<le> j \<and> j < i + calls - 1 \<longrightarrow> isl (attempt (fetch j))"
      proof (intro allI impI)
        fix j assume j: "i \<le> j \<and> j < i + calls - 1"
        show "isl (attempt (fetch j))"
        proof (cases "j = i")
          case True with first show ?thesis by simp
        next
          case False
          with j res(2) have "Suc i \<le> j \<and> j < Suc i + c - 1" by simp
          with ih(3) show ?thesis by blast
        qed
      qed
      have "[i..<i + calls - 1] = i # [Suc i..<Suc i + c - 1]"
        using res(2) ih(1) by (simp add: upt_conv_Cons)
      with ih(4) res(3) have dl: "delays = map (\<lambda>j. 2 ^ j * 1000 + rand j * 1000) [i..<i + calls - 1]"
        by simp
      have idx: "i + calls - 1 = Suc i + c - 1" "i + calls = Suc i + c" using res(2) by simp_all
      from ih(1,2) res(2) have "1 \<le> calls \<and> i + calls \<le> m" by simp
      with all dl ih(5) res(1) show ?thesis unfolding idx by (auto split: sum.splits)
    qed
  qed
qed

lemma callModel_thrown:
  "fst (fetchWithRetry fetch rand 5) = Thrown error \<Longrightarrow> callModel emptyResult fetch rand = (emptyResult, True)"
  by (simp add: callModel_def)

text \<open>
  Claim C8, as amended. Called with the default of five, the wrapper calls \<^verbatim>\<open>fetch\<close> at
  least once and at most five times. Every call but the last one failed in a way that is
  retried: \<^verbatim>\<open>fetch\<close> itself threw (a network error), or the response had status 429 or a
  status of 500 or more; after call \<open>i\<close> the wrapper waits \<open>2 ^ i\<close> seconds plus a jitter of
  \<^verbatim>\<open>Math.random()\<close> seconds. The last call either gave a response of another status,
  which is returned at once, or was the fifth call, whose error is thrown. The callers
  turn every thrown error into their empty result and log it.
\<close>

theorem C8_retry_policy:
  assumes "fetchWithRetry fetch rand 5 = (result, calls, delays)"
  shows "1 \<le> calls \<and> calls \<le> 5
    \<and> (\<forall>i < calls - 1.
          (\<exists>msg. fetch i = Rejected msg)
          \<or> (\<exists>response. fetch i = Responded response \<and> (status response = 429 \<or> 500 \<le> status response)))
    \<and> delays = map (\<lambda>i. 2 ^ i * 1000 + rand i * 1000) [0..<calls - 1]
    \<and> (case fetch (calls - 1) of
          Rejected msg \<Rightarrow> calls = 5 \<and> result = Thrown (FetchError msg)
        | Responded response \<Rightarrow>
            if status response = 429 \<or> 500 \<le> status response
            then calls = 5 \<and> result = Thrown (HttpError (status response))
            else result = Returned response)
    \<and> (\<forall>error. result = Thrown error \<longrightarrow> callModel emptyResult fetch rand = (emptyResult, True))"
proof -
  from assms have run: "retryLoop fetch rand 5 0 = (result, calls, delays)"
    by (simp add: fetchWithRetry_def)
  have "(0::nat) < 5" by simp
  from retryLoop_shape [OF this run] have sh:
    "1 \<le> calls" "calls \<le> 5"
    "\<forall>j. j < calls - 1 \<longrightarrow> isl (attempt (fetch j))"
    "delays = map (\<lambda>j. 2 ^ j * 1000 + rand j * 1000) [0..<calls - 1]"
    "(case attempt (fetch (calls - 1)) of
          Inr response \<Rightarrow> result = Returned response
        | Inl error \<Rightarrow> calls = 5 \<and> result = Thrown error)"
    by (simp_all split: sum.splits)
  from sh(3) have before: "\<forall>i < calls - 1.
          (\<exists>msg. fetch i = Rejected msg)
          \<or> (\<exists>response. fetch i = Responded response \<and> (status response = 429 \<or> 500 \<le> status response))"
    by (simp add: attempt_retryable)
  have last: "(case fetch (calls - 1) of
          Rejected msg \<Rightarrow> calls = 5 \<and> result = Thrown (FetchError msg)
        | Responded response \<Rightarrow>
            if status response = 429 \<or> 500 \<le> status response
            then calls = 5 \<and> result = Thrown (HttpError (status response))
            else result = Returned response)"
    using sh(5) by (cases "fetch (calls - 1)") (auto simp: attempt_def ok_def split: if_splits)
  have thrown: "\<forall>error. result = Thrown error \<longrightarrow> callModel emptyResult fetch rand = (emptyResult, True)"
    using assms by (simp add: callModel_def)
  from sh(1,2) before sh(4) last thrown show ?thesis by blast
qed

theorem C8_retry_policy_witness:
  "fetchWithRetry overloadedFetch halfDraw 5 = (Thrown (HttpError 503), 5, [1500, 2500, 4500, 8500])
   \<and> overloadedFetch 4 = Responded (HttpResponse 503 NoText)
   \<and> callPredictiveEngine overloadedFetch halfDraw
        = (\<lparr>llm_suggestedCart = [], llm_inventoryForecasts = []\<rparr>, True)"
proof -
  have run: "fetchWithRetry overloadedFetch halfDraw 5 = (Thrown (HttpError 503), 5, [1500, 2500, 4500, 8500])"
    by (simp add: fetchWithRetry_def retryLoop.simps [of _ _ 5] overloadedFetch_def attempt_def ok_def halfDraw_def)
  from C8_retry_policy [OF run, of "\<lparr>llm_suggestedCart = [], llm_inventoryForecasts = []\<rparr>"]
  have "callModel \<lparr>llm_suggestedCart = [], llm_inventoryForecasts = []\<rparr> overloadedFetch halfDraw
        = (\<lparr>llm_suggestedCart = [], llm_inventoryForecasts = []\<rparr>, True)"
    by blast
  with run show ?thesis by (simp add: callPredictiveEngine_def overloadedFetch_def)
qed

text \<open>
  The claim as stated fails: a network error is a failure other than a 429 or 5xx
  response, and it is retried. Here the first call is rejected and the second one
  answers, so two calls are made and the caller gets the model's result. And a 400
  response, which is returned without retry, becomes an empty result that is not logged.
\<close>

theorem C8_network_error_is_retried:
  "flakyFetch 0 = Rejected ''Failed to fetch''
   \<and> fst (snd (fetchWithRetry flakyFetch halfDraw 5)) = 2
   \<and> fst (callPredictiveEngine flakyFetch halfDraw)
        = \<lparr>llm_suggestedCart = [milkSuggestion], llm_inventoryForecasts = []\<rparr>
   \<and> fetchWithRetry badRequestFetch halfDraw 5 = (Returned (HttpResponse 400 NoText), 1, [])
   \<and> callPredictiveEngine badRequestFetch halfDraw
        = (\<lparr>llm_suggestedCart = [], llm_inventoryForecasts = []\<rparr>, False)"
  by (simp add: fetchWithRetry_def retryLoop.simps [of _ _ 5] flakyFetch_def badRequestFetch_def
      attempt_def ok_def halfDraw_def callPredictiveEngine_def callModel_def)

section \<open>Forecast merge\<close>

lemma inventory_logAudit [simp]: "inventory (logAudit a st) = inventory st"
  by (simp add: logAudit_def)

lemma inventory_logAudits [simp]: "inventory (foldl (\<lambda>s a. logAudit a s) st as) = inventory st"
  by (induction as arbitrary: st) simp_all







section \<open>Batches\<close>

lemma docWithId_None: "docWithId iid docs = None \<longleftrightarrow> \<not> hasDoc iid docs"
  by (auto simp: docWithId_def hasDoc_def find_None_iff)

lemma docWithId_map_set:
  "docWithId j (map (\<lambda>i. if item_id i = iid then item\<lparr>item_id := iid\<rparr> else i) docs)
     = (if j = iid then (if hasDoc iid docs then Some (item\<lparr>item_id := iid\<rparr>) else None)
        else docWithId j docs)"
  by (induction docs) (auto simp: docWithId_def hasDoc_def)

lemma docWithId_append:
  "docWithId j (docs @ [x]) = (case docWithId j docs of Some y \<Rightarrow> Some y
                               | None \<Rightarrow> if item_id x = j then Some x else None)"
  by (induction docs) (auto simp: docWithId_def)

lemma docWithId_setDocInv:
  "docWithId j (setDocInv iid item docs)
     = (if j = iid then Some (item\<lparr>item_id := iid\<rparr>) else docWithId j docs)"
proof (cases "hasDoc iid docs")
  case True
  then show ?thesis by (simp add: setDocInv_def docWithId_map_set)
next
  case False
  then have "docWithId iid docs = None" by (simp add: docWithId_None)
  with False show ?thesis
    by (auto simp: setDocInv_def docWithId_append split: option.splits)
qed

lemma foldl_untouched:
  assumes "\<forall>w \<in> set ws. \<forall>iid item. w = SetInventory iid item \<longrightarrow> iid \<noteq> j"
    and "\<forall>w \<in> set ws. \<forall>iid d. w \<noteq> MergeForecast iid d"
  shows "docWithId j (inventory (foldl applyWrite st ws)) = docWithId j (inventory st)"
  using assms
proof (induction ws arbitrary: st)
  case Nil
  show ?case by simp
next
  case (Cons w ws)
  have "docWithId j (inventory (applyWrite st w)) = docWithId j (inventory st)"
    using Cons.prems by (cases w) (auto simp: docWithId_setDocInv)
  with Cons show ?case by simp
qed

lemma foldl_last_set:
  assumes "\<forall>w \<in> set ws2. \<forall>iid item'. w = SetInventory iid item' \<longrightarrow> iid \<noteq> j"
    and "\<forall>w \<in> set ws2. \<forall>iid d. w \<noteq> MergeForecast iid d"
  shows "docWithId j (inventory (foldl applyWrite st (ws1 @ SetInventory j item # ws2)))
           = Some (item\<lparr>item_id := j\<rparr>)"
proof -
  have "docWithId j (inventory (foldl applyWrite st (ws1 @ SetInventory j item # ws2)))
      = docWithId j (inventory (applyWrite (foldl applyWrite st ws1) (SetInventory j item)))"
    using foldl_untouched [OF assms] by simp
  then show ?thesis by (simp add: docWithId_setDocInv)
qed

lemma foldl_history:
  "purchaseHistory (foldl applyWrite st ws)
     = purchaseHistory st @ concat (map (\<lambda>w. case w of AddHistory h \<Rightarrow> [h] | _ \<Rightarrow> []) ws)"
proof (induction ws arbitrary: st)
  case Nil
  show ?case by simp
next
  case (Cons w ws)
  then show ?case by (cases w) simp_all
qed

lemma updateWrites_shape:
  "updateWrites docs now uuid (k, u) =
     [AddHistory (historyOfUpdate now u),
      SetInventory (case findByName docs (u_name u) of Some e \<Rightarrow> item_id e | None \<Rightarrow> uuid k)
                   (case findByName docs (u_name u) of
                      Some e \<Rightarrow> restockedItem e (purchasedQuantity u) now
                    | None \<Rightarrow> newItem (uuid k) u now)]"
  by (simp add: updateWrites_def split: option.splits)

lemma findByName_mem: "findByName docs n = Some e \<Longrightarrow> e \<in> set docs"
  by (auto simp: findByName_def find_Some_iff)

lemma in_set_drop_nth:
  assumes "x \<in> set (drop n xs)"
  shows "\<exists>i. n \<le> i \<and> i < length xs \<and> x = xs ! i"
proof -
  from assms obtain i where "i < length (drop n xs)" "x = drop n xs ! i"
    by (auto simp: in_set_conv_nth)
  then have "n \<le> n + i \<and> n + i < length xs \<and> x = xs ! (n + i)" by auto
  then show ?thesis by blast
qed

text \<open>The writes of entry \<open>k\<close> and those of the entries after it.\<close>

lemma processUpdates_writes_split:
  assumes "k < length updates"
  shows "concat (map (updateWrites docs now uuid) (enumerate 0 updates))
     = (concat (map (updateWrites docs now uuid) (take k (enumerate 0 updates)))
          @ [AddHistory (historyOfUpdate now (updates ! k))])
       @ SetInventory (case findByName docs (u_name (updates ! k)) of Some e \<Rightarrow> item_id e | None \<Rightarrow> uuid k)
                   (case findByName docs (u_name (updates ! k)) of
                      Some e \<Rightarrow> restockedItem e (purchasedQuantity (updates ! k)) now
                    | None \<Rightarrow> newItem (uuid k) (updates ! k) now)
       # concat (map (updateWrites docs now uuid) (drop (Suc k) (enumerate 0 updates)))"
proof -
  from assms have "k < length (enumerate 0 updates)" by simp
  from id_take_nth_drop [OF this] assms have
    "enumerate 0 updates = take k (enumerate 0 updates) @ (k, updates ! k) # drop (Suc k) (enumerate 0 updates)"
    by (simp add: nth_enumerate_eq)
  then have "concat (map (updateWrites docs now uuid) (enumerate 0 updates))
     = concat (map (updateWrites docs now uuid) (take k (enumerate 0 updates)))
       @ updateWrites docs now uuid (k, updates ! k)
       @ concat (map (updateWrites docs now uuid) (drop (Suc k) (enumerate 0 updates)))"
    by (metis concat.simps(2) concat_append list.simps(9) map_append)
  then show ?thesis by (simp add: updateWrites_shape)
qed

lemma later_writes:
  assumes "w \<in> set (concat (map (updateWrites docs now uuid) (drop (Suc k) (enumerate 0 updates))))"
  shows "\<exists>j. k < j \<and> j < length updates \<and> w \<in> set (updateWrites docs now uuid (j, updates ! j))"
proof -
  from assms obtain p where p: "p \<in> set (drop (Suc k) (enumerate 0 updates))"
    and w: "w \<in> set (updateWrites docs now uuid p)" by auto
  from in_set_drop_nth [OF p] obtain j where
    "Suc k \<le> j" "j < length (enumerate 0 updates)" "p = enumerate 0 updates ! j" by blast
  then have "k < j \<and> j < length updates \<and> p = (j, updates ! j)"
    by (simp add: nth_enumerate_eq)
  with w show ?thesis by blast
qed

lemma processUpdates_state:
  assumes "dbReady st" and "updates \<noteq> []" and "\<not> list_ex updateThrows updates"
  shows "fst (processUpdates updates now uuid True st)
     = logAudit (InputProcessed (u_method (hd updates)) (map u_name updates))
         (foldl applyWrite st (concat (map (updateWrites (inventory st) now uuid) (enumerate 0 updates))))"
  using assms by (cases updates) (simp_all add: processUpdates_def commitBatch_def Let_def)

section \<open>Apply updates\<close>

text \<open>
  Claim C5, as amended. For a batch in which every entry has a name and a vendor (for an
  entry without one \<^verbatim>\<open>batch.set\<close> throws and nothing is written), an update entry whose
  name matches no inventory item, fresh ids from \<^verbatim>\<open>crypto.randomUUID\<close> (distinct, and not
  the id of an existing document) and a commit that succeeds: the entry's id names no
  document before, and afterwards the document with that id is a new item with the entry's
  name, quantity \<open>q\<close>, a restock level of \<open>q\<close> times 2 and a daily use of \<open>q\<close> divided by 30,
  both in double arithmetic, and no forecast. Here \<open>q\<close> is the entry's quantity when that
  is a number other than zero, and 1 when it is zero or not a number.
\<close>

theorem C5_new_item_defaults:
  assumes "dbReady st" and "k < length updates"
    and "\<not> list_ex updateThrows updates"
    and "findByName (inventory st) (u_name (updates ! k)) = None"
    and "\<forall>j < length updates. \<not> hasDoc (uuid j) (inventory st)"
    and "inj_on uuid {..<length updates}"
  shows "docWithId (uuid k) (inventory st) = None
    \<and> (let q = (case u_quantity (updates ! k) of None \<Rightarrow> 1 | Some x \<Rightarrow> if x = 0 then 1 else x)
       in docWithId (uuid k) (inventory (fst (processUpdates updates now uuid True st)))
        = Some \<lparr>item_id = uuid k,
                name = (case u_name (updates ! k) of Str s \<Rightarrow> Some s | _ \<Rightarrow> None),
                quantity = Some q,
                item_unit = Some (if q > 1 then ''units'' else ''unit''),
                restockLevel = Some (dmul q 2),
                dailyUse = Some (ddiv q 30),
                lastUsed = Some now, predictedRunOutDate = None\<rparr>)"
proof -
  let ?docs = "inventory st"
  let ?u = "updates ! k"
  let ?later = "concat (map (updateWrites ?docs now uuid) (drop (Suc k) (enumerate 0 updates)))"
  from assms(2) have ne: "updates \<noteq> []" by auto
  have fresh: "docWithId (uuid k) ?docs = None"
    using assms(2,5) by (simp add: docWithId_None)
  have nomerge: "\<forall>w \<in> set ?later. \<forall>iid d. w \<noteq> MergeForecast iid d"
    by (auto simp: updateWrites_def split: option.splits)
  have noset: "\<forall>w \<in> set ?later. \<forall>iid item'. w = SetInventory iid item' \<longrightarrow> iid \<noteq> uuid k"
  proof (intro ballI allI impI)
    fix w iid item'
    assume w: "w \<in> set ?later" and eq: "w = SetInventory iid item'"
    from later_writes [OF w] obtain j where j: "k < j" "j < length updates"
      and wj: "w \<in> set (updateWrites ?docs now uuid (j, updates ! j))" by blast
    show "iid \<noteq> uuid k"
    proof (cases "findByName ?docs (u_name (updates ! j))")
      case None
      with wj eq have "iid = uuid j" by (simp add: updateWrites_shape)
      moreover have "uuid j \<noteq> uuid k"
      proof
        assume "uuid j = uuid k"
        moreover from j assms(2) have "j \<in> {..<length updates}" "k \<in> {..<length updates}"
          by simp_all
        ultimately have "j = k" using assms(6) by (auto dest: inj_onD)
        with j(1) show False by simp
      qed
      ultimately show ?thesis by simp
    next
      case (Some e)
      with wj eq have "iid = item_id e" by (simp add: updateWrites_shape)
      moreover from findByName_mem [OF Some] have "hasDoc (item_id e) ?docs"
        by (simp add: hasDoc_def)
      moreover from assms(2,5) have "\<not> hasDoc (uuid k) ?docs" by simp
      ultimately show ?thesis by auto
    qed
  qed
  have split: "concat (map (updateWrites ?docs now uuid) (enumerate 0 updates))
      = (concat (map (updateWrites ?docs now uuid) (take k (enumerate 0 updates)))
          @ [AddHistory (historyOfUpdate now ?u)])
        @ SetInventory (uuid k) (newItem (uuid k) ?u now) # ?later"
    using processUpdates_writes_split [OF assms(2), of ?docs now uuid]
    by (simp only: assms(4) option.case)
  have "docWithId (uuid k) (inventory (fst (processUpdates updates now uuid True st)))
      = Some ((newItem (uuid k) ?u now)\<lparr>item_id := uuid k\<rparr>)"
    by (simp only: processUpdates_state [OF assms(1) ne assms(3)] inventory_logAudit split
        foldl_last_set [OF noset nomerge])
  then have "docWithId (uuid k) (inventory (fst (processUpdates updates now uuid True st)))
      = Some (newItem (uuid k) ?u now)"
    by (simp add: newItem_def Let_def)
  then show ?thesis using fresh
    by (simp add: newItem_def purchasedQuantity_def numOr_def stored_def Let_def)
qed

lemma exampleUuid_inj: "inj_on exampleUuid A"
proof (rule inj_onI)
  fix x y assume "exampleUuid x = exampleUuid y"
  then have "length (exampleUuid x) = length (exampleUuid y)" by simp
  then show "x = y" by (simp add: exampleUuid_def)
qed

lemma tea_not_found:
  "findByName (inventory exampleState) (Str ''Tea'') = None"
  by (simp add: findByName_def exampleState_def milkItem_def nameKey_def textKey_def
      toLowerCase_def toLowerChar_def)

lemma example_ids_fresh:
  "\<not> hasDoc (exampleUuid 0) (inventory exampleState)"
  "\<not> hasDoc (exampleUuid 1) (inventory exampleState)" "exampleUuid 0 \<noteq> exampleUuid 1"
  "exampleUuid 0 = ''u''"
  by (simp_all add: hasDoc_def exampleState_def milkItem_def exampleUuid_def)

lemma tea_defaults: "dmul 4 2 = 8" "ddiv 4 30 = roundDouble (4 / 30)" "dmul 1 2 = 2"
  "ddiv 1 30 = roundDouble (1 / 30)" "dmul 0 2 = 0" "ddiv 0 30 = 0"
  by (simp_all add: double_eval)

theorem C5_new_item_defaults_witness:
  "dbReady exampleState \<and> 0 < length [teaUpdate, milkUpdate2]
   \<and> \<not> list_ex updateThrows [teaUpdate, milkUpdate2]
   \<and> findByName (inventory exampleState) (u_name ([teaUpdate, milkUpdate2] ! 0)) = None
   \<and> \<not> hasDoc (exampleUuid 0) (inventory exampleState)
   \<and> \<not> hasDoc (exampleUuid 1) (inventory exampleState)
   \<and> exampleUuid 0 \<noteq> exampleUuid 1
   \<and> docWithId ''u''
        (inventory (fst (processUpdates [teaUpdate, milkUpdate2] exampleNow exampleUuid True exampleState)))
      = Some \<lparr>item_id = ''u'', name = Some ''Tea'', quantity = Some 4, item_unit = Some ''units'',
              restockLevel = Some 8, dailyUse = Some (roundDouble (4 / 30)),
              lastUsed = Some exampleNow, predictedRunOutDate = None\<rparr>"
proof -
  have a: "dbReady exampleState" by (simp add: exampleState_def)
  have b: "0 < length [teaUpdate, milkUpdate2]" by simp
  have n: "\<not> list_ex updateThrows [teaUpdate, milkUpdate2]"
    by (simp add: updateThrows_def teaUpdate_def milkUpdate2_def)
  have c: "findByName (inventory exampleState) (u_name ([teaUpdate, milkUpdate2] ! 0)) = None"
    using tea_not_found by (simp add: teaUpdate_def)
  have d: "\<forall>j < length [teaUpdate, milkUpdate2]. \<not> hasDoc (exampleUuid j) (inventory exampleState)"
    by (simp add: hasDoc_def exampleState_def milkItem_def exampleUuid_def)
  have e: "inj_on exampleUuid {..<length [teaUpdate, milkUpdate2]}" by (rule exampleUuid_inj)
  have f: "u_quantity teaUpdate = Some 4" "u_name teaUpdate = Str ''Tea''"
    by (simp_all add: teaUpdate_def)
  from C5_new_item_defaults [OF a b n c d e, of exampleNow]
  have "docWithId ''u''
        (inventory (fst (processUpdates [teaUpdate, milkUpdate2] exampleNow exampleUuid True exampleState)))
      = Some \<lparr>item_id = ''u'', name = Some ''Tea'', quantity = Some 4, item_unit = Some ''units'',
              restockLevel = Some 8, dailyUse = Some (roundDouble (4 / 30)),
              lastUsed = Some exampleNow, predictedRunOutDate = None\<rparr>"
    by (simp add: f example_ids_fresh(4) tea_defaults Let_def)
  with a b n c example_ids_fresh(1-3) show ?thesis by blast
qed

text \<open>
  The claim as stated fails for a purchased quantity of zero. The entry names Tea, which
  the inventory does not have, with quantity 0: twice the quantity and the quantity
  divided by 30 are both 0, and the new item has quantity 1, restock level 2 and the
  daily use of 1 divided by 30.
\<close>

theorem C5_zero_quantity_counts_as_one:
  "u_quantity zeroTeaUpdate = Some 0
   \<and> findByName (inventory exampleState) (u_name zeroTeaUpdate) = None
   \<and> dmul 0 2 = 0 \<and> ddiv 0 30 = 0 \<and> roundDouble (1 / 30) \<noteq> 0
   \<and> snd (processUpdates [zeroTeaUpdate] exampleNow exampleUuid True exampleState)
   \<and> docWithId ''u''
        (inventory (fst (processUpdates [zeroTeaUpdate] exampleNow exampleUuid True exampleState)))
      = Some \<lparr>item_id = ''u'', name = Some ''Tea'', quantity = Some 1, item_unit = Some ''unit'',
              restockLevel = Some 2, dailyUse = Some (roundDouble (1 / 30)),
              lastUsed = Some exampleNow, predictedRunOutDate = None\<rparr>"
proof -
  have f: "u_quantity zeroTeaUpdate = Some 0" "u_name zeroTeaUpdate = Str ''Tea''"
    "u_vendor zeroTeaUpdate = Str ''Walmart''"
    by (simp_all add: zeroTeaUpdate_def)
  have c: "findByName (inventory exampleState) (u_name zeroTeaUpdate) = None"
    using tea_not_found by (simp add: f)
  have r: "roundDouble (1 / 30) \<noteq> 0" by (simp add: double_eval)
  have ok: "snd (processUpdates [zeroTeaUpdate] exampleNow exampleUuid True exampleState)"
    by (simp add: processUpdates_def updateThrows_def f exampleState_def Let_def)
  have w: "updateWrites (inventory exampleState) exampleNow exampleUuid (0, zeroTeaUpdate)
      = [AddHistory (historyOfUpdate exampleNow zeroTeaUpdate),
         SetInventory ''u''
           \<lparr>item_id = ''u'', name = Some ''Tea'', quantity = Some 1, item_unit = Some ''unit'',
              restockLevel = Some 2, dailyUse = Some (roundDouble (1 / 30)),
              lastUsed = Some exampleNow, predictedRunOutDate = None\<rparr>]"
    by (simp add: updateWrites_shape tea_not_found example_ids_fresh(4) newItem_def purchasedQuantity_def
        numOr_def f stored_def tea_defaults Let_def)
  have i: "inventory exampleState = [milkItem]" "dbReady exampleState"
    by (simp_all add: exampleState_def)
  have m: "item_id milkItem \<noteq> ''u''" by (simp add: milkItem_def)
  have d: "docWithId ''u''
        (inventory (fst (processUpdates [zeroTeaUpdate] exampleNow exampleUuid True exampleState)))
      = Some \<lparr>item_id = ''u'', name = Some ''Tea'', quantity = Some 1, item_unit = Some ''unit'',
              restockLevel = Some 2, dailyUse = Some (roundDouble (1 / 30)),
              lastUsed = Some exampleNow, predictedRunOutDate = None\<rparr>"
    by (simp add: processUpdates_def updateThrows_def f(2,3) w [unfolded i(1)] commitBatch_def
        logAudit_def enumerate_eq_zip exampleState_def setDocInv_def hasDoc_def m docWithId_def
        Let_def)
  show ?thesis by (intro conjI f(1) c tea_defaults(5) tea_defaults(6) r ok d)
qed

lemma restockedItem_id: "(restockedItem e q now)\<lparr>item_id := item_id e\<rparr> = restockedItem e q now"
  by (simp add: restockedItem_def)

text \<open>
  Apply updates, one entry: when no later entry of the batch is matched to the same
  document, the document of the matched item ends as the item with the purchased
  quantity added and the forecast cleared.
\<close>

lemma restock_last_matching_entry:
  assumes "dbReady st" and "k < length updates"
    and "findByName (inventory st) (u_name (updates ! k)) = Some e"
    and "\<forall>j. k < j \<and> j < length updates \<longrightarrow>
           (\<forall>e'. findByName (inventory st) (u_name (updates ! j)) = Some e' \<longrightarrow> item_id e' \<noteq> item_id e)"
    and "\<forall>j < length updates. \<not> hasDoc (uuid j) (inventory st)"
    and "\<not> list_ex updateThrows updates"
  shows "docWithId (item_id e) (inventory (fst (processUpdates updates now uuid True st)))
     = Some (e\<lparr>quantity := Some (dadd (numOr (quantity e) 0) (purchasedQuantity (updates ! k))),
               lastUsed := Some now, predictedRunOutDate := None\<rparr>)"
proof -
  let ?docs = "inventory st"
  let ?u = "updates ! k"
  let ?later = "concat (map (updateWrites ?docs now uuid) (drop (Suc k) (enumerate 0 updates)))"
  from assms(2) have ne: "updates \<noteq> []" by auto
  from findByName_mem [OF assms(3)] have has: "hasDoc (item_id e) ?docs" by (simp add: hasDoc_def)
  have nomerge: "\<forall>w \<in> set ?later. \<forall>iid d. w \<noteq> MergeForecast iid d"
    by (auto simp: updateWrites_def split: option.splits)
  have noset: "\<forall>w \<in> set ?later. \<forall>iid item'. w = SetInventory iid item' \<longrightarrow> iid \<noteq> item_id e"
  proof (intro ballI allI impI)
    fix w iid item'
    assume w: "w \<in> set ?later" and eq: "w = SetInventory iid item'"
    from later_writes [OF w] obtain j where j: "k < j" "j < length updates"
      and wj: "w \<in> set (updateWrites ?docs now uuid (j, updates ! j))" by blast
    show "iid \<noteq> item_id e"
    proof (cases "findByName ?docs (u_name (updates ! j))")
      case None
      with wj eq have iid: "iid = uuid j" by (simp add: updateWrites_shape)
      from assms(5) j(2) have "\<not> hasDoc (uuid j) ?docs" by simp
      with has iid show ?thesis by force
    next
      case (Some e')
      with wj eq have iid: "iid = item_id e'" by (simp add: updateWrites_shape)
      from assms(4) [rule_format, OF conjI [OF j(1) j(2)] Some] iid show ?thesis by simp
    qed
  qed
  have split: "concat (map (updateWrites ?docs now uuid) (enumerate 0 updates))
      = (concat (map (updateWrites ?docs now uuid) (take k (enumerate 0 updates)))
          @ [AddHistory (historyOfUpdate now ?u)])
        @ SetInventory (item_id e) (restockedItem e (purchasedQuantity ?u) now) # ?later"
    using processUpdates_writes_split [OF assms(2), of ?docs now uuid]
    by (simp only: assms(3) option.case)
  have "docWithId (item_id e) (inventory (fst (processUpdates updates now uuid True st)))
      = Some (restockedItem e (purchasedQuantity ?u) now)"
    by (simp only: processUpdates_state [OF assms(1) ne assms(6)] inventory_logAudit split
        foldl_last_set [OF noset nomerge] restockedItem_id)
  then show ?thesis by (simp add: restockedItem_def)
qed

lemma updates_history:
  assumes "dbReady st" and "updates \<noteq> []" and "\<not> list_ex updateThrows updates"
  shows "purchaseHistory (fst (processUpdates updates now uuid True st))
     = purchaseHistory st @ map (historyOfUpdate now) updates"
proof -
  have hist: "concat (map (\<lambda>w. case w of AddHistory h \<Rightarrow> [h] | _ \<Rightarrow> [])
          (concat (map (updateWrites (inventory st) now uuid) ps)))
        = map (\<lambda>p. historyOfUpdate now (snd p)) ps" for ps
    by (induction ps) (auto simp: updateWrites_shape)
  have "map (\<lambda>p. historyOfUpdate now (snd p)) (enumerate 0 updates)
      = map (historyOfUpdate now) (map snd (enumerate 0 updates))"
    by (simp only: map_map comp_def)
  then have "map (\<lambda>p. historyOfUpdate now (snd p)) (enumerate 0 updates) = map (historyOfUpdate now) updates"
    by (simp only: map_snd_enumerate)
  with hist [of "enumerate 0 updates"]
  have "concat (map (\<lambda>w. case w of AddHistory h \<Rightarrow> [h] | _ \<Rightarrow> [])
          (concat (map (updateWrites (inventory st) now uuid) (enumerate 0 updates))))
        = map (historyOfUpdate now) updates"
    by simp
  then show ?thesis
    unfolding processUpdates_state [OF assms]
    by (simp add: logAudit_def foldl_history)
qed

text \<open>
  Claim C4 says that every entry whose name matches an item increases the quantity of
  that item by the purchased quantity. The routine reads the item from the \<^verbatim>\<open>inventory\<close>
  state for each entry and writes the sum to the item's document, so of two entries of a
  batch that match the same item the write of the second replaces that of the first.
  Here Milk has quantity 1 and the batch names it twice, with quantities 2 and 3: the
  history records both purchases, and Milk ends with quantity 4 instead of 6.
\<close>

theorem C4_repeated_name_loses_increment:
  "findByName (inventory exampleState) (u_name milkUpdate2) = Some milkItem
   \<and> findByName (inventory exampleState) (u_name milkUpdate3) = Some milkItem
   \<and> quantity milkItem = Some 1
   \<and> map purchasedQuantity [milkUpdate2, milkUpdate3] = [2, 3]
   \<and> map quantity
        (inventory (fst (processUpdates [milkUpdate2, milkUpdate3] exampleNow exampleUuid True exampleState)))
      = [Some 4]
   \<and> map h_quantity
        (purchaseHistory (fst (processUpdates [milkUpdate2, milkUpdate3] exampleNow exampleUuid True exampleState)))
      = [2, 3]"
proof -
  have d: "dadd 1 2 = 3" "dadd 1 3 = 4" by (simp_all add: double_eval)
  show ?thesis
    by (simp add: processUpdates_def commitBatch_def logAudit_def updateWrites_def findByName_def
        exampleState_def milkItem_def milkUpdate2_def milkUpdate3_def nameKey_def textKey_def
        toLowerCase_def toLowerChar_def purchasedQuantity_def purchasedCost_def numOr_def
        restockedItem_def historyOfUpdate_def setDocInv_def hasDoc_def enumerate_eq_zip
        updateThrows_def stored_def textOr_def d Let_def)
qed

section \<open>Checkout\<close>

lemma handleCheckout_state:
  assumes "suggestedCart st \<noteq> []" and "dbReady st" and "\<not> list_ex lineThrows (suggestedCart st)"
  shows "fst (handleCheckout now True st)
     = logAudit (PurchaseExecutedSimulated (cartTotal (suggestedCart st)) (map c_name (suggestedCart st)))
         ((foldl applyWrite (logAudit (PurchaseExecutedAuto (cartTotal (suggestedCart st))) st)
             (concat (map (checkoutWrites (inventory st) now) (suggestedCart st))
                @ [UpdateSpend (dadd (currentMonthSpend (userConfig st)) (cartTotal (suggestedCart st)))]))
          \<lparr>suggestedCart := []\<rparr>)"
    and "snd (handleCheckout now True st)"
  using assms by (simp_all add: handleCheckout_def commitBatch_def Let_def)

text \<open>
  Checkout: the history gets one record for each cart line, the cart is cleared and the
  forecast is asked for again.
\<close>

lemma checkout_effects:
  assumes "suggestedCart st \<noteq> []" and "dbReady st" and "\<not> list_ex lineThrows (suggestedCart st)"
  shows "purchaseHistory (fst (handleCheckout now True st))
           = purchaseHistory st @ map (historyOfLine now) (suggestedCart st)"
    and "suggestedCart (fst (handleCheckout now True st)) = []"
    and "snd (handleCheckout now True st)"
proof -
  have "concat (map (\<lambda>w. case w of AddHistory h \<Rightarrow> [h] | _ \<Rightarrow> [])
          (concat (map (checkoutWrites (inventory st) now) cart)))
        = map (historyOfLine now) cart" for cart
    by (induction cart) (auto simp: checkoutWrites_def split: option.splits)
  then show "purchaseHistory (fst (handleCheckout now True st))
           = purchaseHistory st @ map (historyOfLine now) (suggestedCart st)"
    unfolding handleCheckout_state(1) [OF assms]
    by (simp add: logAudit_def foldl_history)
  show "suggestedCart (fst (handleCheckout now True st)) = []"
    unfolding handleCheckout_state(1) [OF assms] by (simp add: logAudit_def)
  show "snd (handleCheckout now True st)" by (rule handleCheckout_state(2) [OF assms])
qed

text \<open>
  Checkout, one line: when no later line of the cart is matched to the same document, the
  document of the matched item ends as the item with the line quantity added and the
  forecast cleared.
\<close>

lemma checkout_last_matching_line:
  assumes "dbReady st" and "k < length (suggestedCart st)"
    and "findByName (inventory st) (c_name (suggestedCart st ! k)) = Some e"
    and "\<forall>j. k < j \<and> j < length (suggestedCart st) \<longrightarrow>
           (\<forall>e'. findByName (inventory st) (c_name (suggestedCart st ! j)) = Some e' \<longrightarrow> item_id e' \<noteq> item_id e)"
    and "\<not> list_ex lineThrows (suggestedCart st)"
  shows "docWithId (item_id e) (inventory (fst (handleCheckout now True st)))
     = Some (e\<lparr>quantity := Some (dadd (numOr (quantity e) 0) (c_quantity (suggestedCart st ! k))),
               lastUsed := Some now, predictedRunOutDate := None\<rparr>)"
proof -
  let ?docs = "inventory st"
  let ?cart = "suggestedCart st"
  let ?spend = "UpdateSpend (dadd (currentMonthSpend (userConfig st)) (cartTotal ?cart))"
  let ?later = "concat (map (checkoutWrites ?docs now) (drop (Suc k) ?cart)) @ [?spend]"
  from assms(2) have ne: "?cart \<noteq> []" by auto
  have nomerge: "\<forall>w \<in> set ?later. \<forall>iid d. w \<noteq> MergeForecast iid d"
    by (auto simp: checkoutWrites_def split: option.splits)
  have noset: "\<forall>w \<in> set ?later. \<forall>iid item'. w = SetInventory iid item' \<longrightarrow> iid \<noteq> item_id e"
  proof (intro ballI allI impI)
    fix w iid item'
    assume w: "w \<in> set ?later" and eq: "w = SetInventory iid item'"
    then obtain line where "line \<in> set (drop (Suc k) ?cart)" and wl: "w \<in> set (checkoutWrites ?docs now line)"
      by auto
    from in_set_drop_nth [OF this(1)] obtain j where "Suc k \<le> j" and j2: "j < length ?cart" "line = ?cart ! j"
      by blast
    then have j1: "k < j" by simp
    have "\<exists>e'. findByName ?docs (c_name line) = Some e' \<and> iid = item_id e'"
    proof (cases "findByName ?docs (c_name line)")
      case None
      with wl eq show ?thesis by (simp add: checkoutWrites_def)
    next
      case (Some e')
      with wl eq show ?thesis by (simp add: checkoutWrites_def)
    qed
    then obtain e' where "findByName ?docs (c_name line) = Some e'" "iid = item_id e'"
      by blast
    then have "findByName ?docs (c_name (?cart ! j)) = Some e'" and iid: "iid = item_id e'"
      using j2(2) by simp_all
    from assms(4) [rule_format, OF conjI [OF j1 j2(1)] this(1)] iid show "iid \<noteq> item_id e" by simp
  qed
  from assms(2) have "?cart = take k ?cart @ ?cart ! k # drop (Suc k) ?cart"
    by (rule id_take_nth_drop)
  then have "concat (map (checkoutWrites ?docs now) ?cart)
      = concat (map (checkoutWrites ?docs now) (take k ?cart))
        @ checkoutWrites ?docs now (?cart ! k)
        @ concat (map (checkoutWrites ?docs now) (drop (Suc k) ?cart))"
    by (metis concat.simps(2) concat_append list.simps(9) map_append)
  then have split: "concat (map (checkoutWrites ?docs now) ?cart) @ [?spend]
      = (concat (map (checkoutWrites ?docs now) (take k ?cart)) @ [AddHistory (historyOfLine now (?cart ! k))])
        @ SetInventory (item_id e) (restockedItem e (c_quantity (?cart ! k)) now) # ?later"
    by (simp add: checkoutWrites_def assms(3))
  have "inventory (fst (handleCheckout now True st))
      = inventory (foldl applyWrite (logAudit (PurchaseExecutedAuto (cartTotal ?cart)) st)
          (concat (map (checkoutWrites ?docs now) ?cart) @ [?spend]))"
    unfolding handleCheckout_state(1) [OF ne assms(1) assms(5)] by (simp add: logAudit_def)
  then have "docWithId (item_id e) (inventory (fst (handleCheckout now True st)))
      = Some (restockedItem e (c_quantity (?cart ! k)) now)"
    by (simp only: split foldl_last_set [OF noset nomerge] restockedItem_id)
  then show ?thesis by (simp add: restockedItem_def)
qed

lemma milk3_fields:
  "s_name (milkSuggestion\<lparr>quantityToBuy := 3\<rparr>) = Str ''Milk''"
  "quantityToBuy (milkSuggestion\<lparr>quantityToBuy := 3\<rparr>) = 3"
  "s_reason (milkSuggestion\<lparr>quantityToBuy := 3\<rparr>) = Str ''Low stock''"
  "s_vendor (milkSuggestion\<lparr>quantityToBuy := 3\<rparr>) = Undefined"
  by (simp_all add: milkSuggestion_def)

lemma milk3_cost: "itemCost (milkSuggestion\<lparr>quantityToBuy := 3\<rparr>) (1 / 2) = 45 / 2"
  by (simp add: itemCost_def milkSuggestion_def double_eval)

lemma milk_sums:
  "dadd 150 0 = 150" "dadd 150 15 = 165" "dadd 165 (45 / 2) = 375 / 2" "dadd 15 (45 / 2) = 75 / 2"
  "dadd 0 15 = 15" "dadd 150 (75 / 2) = 375 / 2" "toFixed2 (45 / 2) = 45 / 2"
  "dadd 1 2 = 3" "dadd 1 3 = 4"
  by (simp_all add: toFixed2_def double_eval)

lemma milk3_line:
  "cartLine initialConfig (milkSuggestion\<lparr>quantityToBuy := 3\<rparr>, 1 / 2)
     = \<lparr>c_name = Str ''Milk'', c_quantity = 3, c_cost = 45 / 2, c_vendor = ''Amazon'',
        c_reason = Str ''Low stock''\<rparr>"
  by (simp add: cartLine_def milk3_cost milk3_fields milk_sums pickVendor_def firstAllowed_def
      initialConfig_def)

lemma doubleMilk_cart:
  "buildCart initialConfig [milkSuggestion, milkSuggestion\<lparr>quantityToBuy := 3\<rparr>] halfDraw
     = ([cartLine initialConfig (milkSuggestion, 1 / 2),
         cartLine initialConfig (milkSuggestion\<lparr>quantityToBuy := 3\<rparr>, 1 / 2)], 75 / 2, [])"
proof -
  have "currentMonthSpend initialConfig = 150" "spendCapMonthly initialConfig = 500"
    by (simp_all add: initialConfig_def)
  then show ?thesis
    by (simp add: buildCart_def withDraws_def halfDraw_def enumerate_eq_zip milk_cost milk3_cost
        milk_sums)
qed

text \<open>
  The example of the specification: the cart holds one line, Milk x2 at a cost of 15;
  the checkout takes Milk from 1 to 3 and the spend from 150 to 165, clears the forecast
  and the cart and asks for a new forecast.
\<close>

lemma milkCartState_eq:
  "milkCartState = exampleState
     \<lparr>auditLog := [ForecastUpdate 0, CartBuilt 1 15],
      suggestedCart :=
        [\<lparr>c_name = Str ''Milk'', c_quantity = 2, c_cost = 15, c_vendor = ''Amazon'', c_reason = Str ''Low stock''\<rparr>]\<rparr>"
  by (simp add: milkCartState_def exampleState_def runForecasting_def logAudit_def
      commitBatch_def forecastWrites_def milk_cart milk_line Let_def)

lemma checkout_example_milk:
  "map quantity (inventory (fst (handleCheckout exampleNow True milkCartState))) = [Some 3]
   \<and> map predictedRunOutDate (inventory (fst (handleCheckout exampleNow True milkCartState))) = [None]
   \<and> currentMonthSpend (userConfig (fst (handleCheckout exampleNow True milkCartState))) = 150 + 15
   \<and> suggestedCart (fst (handleCheckout exampleNow True milkCartState)) = []
   \<and> map h_quantity (purchaseHistory (fst (handleCheckout exampleNow True milkCartState))) = [2]
   \<and> snd (handleCheckout exampleNow True milkCartState)"
  by (simp add: milkCartState_eq handleCheckout_def commitBatch_def logAudit_def
      checkoutWrites_def findByName_def exampleState_def milkItem_def nameKey_def textKey_def
      toLowerCase_def toLowerChar_def numOr_def restockedItem_def historyOfLine_def
      setDocInv_def hasDoc_def cartTotal_def initialConfig_def lineThrows_def stored_def
      milk_sums Let_def)

lemma doubleMilkState_eq:
  "doubleMilkState = exampleState
     \<lparr>auditLog := [ForecastUpdate 0, CartBuilt 2 (75 / 2)],
      suggestedCart :=
        [\<lparr>c_name = Str ''Milk'', c_quantity = 2, c_cost = 15, c_vendor = ''Amazon'', c_reason = Str ''Low stock''\<rparr>,
         \<lparr>c_name = Str ''Milk'', c_quantity = 3, c_cost = 45 / 2, c_vendor = ''Amazon'', c_reason = Str ''Low stock''\<rparr>]\<rparr>"
  by (simp add: doubleMilkState_def exampleState_def runForecasting_def logAudit_def
      commitBatch_def forecastWrites_def doubleMilk_cart milk_line milk3_line Let_def)

text \<open>
  Claim C3 says that the checkout increments the matching item's quantity by the line
  quantity for every cart line. Like the apply-updates routine, the checkout reads the
  item from the \<^verbatim>\<open>inventory\<close> state for each line, so of two lines that match the same
  item only the last one counts. Here the model suggested Milk twice, the cart holds
  Milk x2 and Milk x3, and Milk has quantity 1: the history records both lines, both
  costs are added to the spend, and Milk ends with quantity 4 instead of 6.
\<close>

theorem C3_repeated_line_loses_increment:
  "map c_name (suggestedCart doubleMilkState) = [Str ''Milk'', Str ''Milk'']
   \<and> map c_quantity (suggestedCart doubleMilkState) = [2, 3]
   \<and> map quantity (inventory doubleMilkState) = [Some 1]
   \<and> map quantity (inventory (fst (handleCheckout exampleNow True doubleMilkState))) = [Some 4]
   \<and> map h_quantity (purchaseHistory (fst (handleCheckout exampleNow True doubleMilkState))) = [2, 3]
   \<and> currentMonthSpend (userConfig (fst (handleCheckout exampleNow True doubleMilkState))) = 150 + 15 + 45 / 2"
  by (simp add: doubleMilkState_eq handleCheckout_def commitBatch_def logAudit_def
      checkoutWrites_def findByName_def exampleState_def milkItem_def nameKey_def textKey_def
      toLowerCase_def toLowerChar_def numOr_def restockedItem_def historyOfLine_def
      setDocInv_def hasDoc_def cartTotal_def initialConfig_def lineThrows_def stored_def
      milk_sums Let_def)

end
